theory Spec2Isabelle
  imports Complex_Main "HOL-Library.Word"
begin

section \<open>C doubles\<close>

text \<open>
  The program computes on C \<open>double\<close>s. A double is modelled as an exact real number or
  one of the three special values of IEEE 754. The special values are kept because the
  program can produce them (\<open>0.0 / 0.0\<close> is NaN) and because \<open>fmax\<close>, \<open>fmin\<close> and the
  comparisons treat NaN in their own way. Finite arithmetic is exact: rounding to 53 bits,
  overflow, underflow and the sign of zero are not modelled.
\<close>

datatype double = Fin real | PInf | NInf | NaN

fun isfinite :: "double \<Rightarrow> bool" where
  "isfinite (Fin a) = True"
| "isfinite x = False"

text \<open>The comparison \<open>x < y\<close> of C: false whenever an operand is NaN.\<close>

fun d_lt :: "double \<Rightarrow> double \<Rightarrow> bool" where
  "d_lt NaN y = False"
| "d_lt x NaN = False"
| "d_lt (Fin a) (Fin b) = (a < b)"
| "d_lt (Fin a) PInf = True"
| "d_lt (Fin a) NInf = False"
| "d_lt PInf y = False"
| "d_lt NInf NInf = False"
| "d_lt NInf y = True"

definition d_gt :: "double \<Rightarrow> double \<Rightarrow> bool" where
  "d_gt x y = d_lt y x"

fun d_add :: "double \<Rightarrow> double \<Rightarrow> double" where
  "d_add NaN y = NaN"
| "d_add x NaN = NaN"
| "d_add (Fin a) (Fin b) = Fin (a + b)"
| "d_add PInf NInf = NaN"
| "d_add NInf PInf = NaN"
| "d_add PInf y = PInf"
| "d_add NInf y = NInf"
| "d_add (Fin a) y = y"

text \<open>The sign of an infinite product or quotient.\<close>

definition signed_inf :: "bool \<Rightarrow> double" where
  "signed_inf negative = (if negative then NInf else PInf)"

fun d_mul :: "double \<Rightarrow> double \<Rightarrow> double" where
  "d_mul NaN y = NaN"
| "d_mul x NaN = NaN"
| "d_mul (Fin a) (Fin b) = Fin (a * b)"
| "d_mul (Fin a) PInf = (if a = 0 then NaN else signed_inf (a < 0))"
| "d_mul (Fin a) NInf = (if a = 0 then NaN else signed_inf (0 < a))"
| "d_mul PInf (Fin b) = (if b = 0 then NaN else signed_inf (b < 0))"
| "d_mul NInf (Fin b) = (if b = 0 then NaN else signed_inf (0 < b))"
| "d_mul PInf PInf = PInf"
| "d_mul PInf NInf = NInf"
| "d_mul NInf PInf = NInf"
| "d_mul NInf NInf = PInf"

text \<open>
  Division: a zero divisor gives NaN for \<open>0 / 0\<close> and an infinity otherwise (the zero
  divisor is taken as \<open>+0\<close>, which is what a conversion from an unsigned integer gives).
\<close>

fun d_div :: "double \<Rightarrow> double \<Rightarrow> double" where
  "d_div NaN y = NaN"
| "d_div x NaN = NaN"
| "d_div (Fin a) (Fin b) =
     (if b = 0 then (if a = 0 then NaN else signed_inf (a < 0)) else Fin (a / b))"
| "d_div (Fin a) y = Fin 0"
| "d_div PInf (Fin b) = signed_inf (b < 0)"
| "d_div NInf (Fin b) = signed_inf (0 \<le> b)"
| "d_div x y = NaN"

text \<open>
  \<open>fmax\<close> and \<open>fmin\<close> of \<open>math.h\<close>: when exactly one argument is NaN the other argument
  is returned.
\<close>

definition fmax :: "double \<Rightarrow> double \<Rightarrow> double" where
  "fmax x y = (if x = NaN then y else if y = NaN then x else if d_lt x y then y else x)"

definition fmin :: "double \<Rightarrow> double \<Rightarrow> double" where
  "fmin x y = (if x = NaN then y else if y = NaN then x else if d_lt y x then y else x)"

definition is_int :: "real \<Rightarrow> bool" where
  "is_int b = (b = of_int \<lfloor>b\<rfloor>)"

text \<open>
  \<open>pow\<close> of \<open>math.h\<close> with the special cases of C11 Annex F.10.4.4: \<open>pow(x, 0)\<close> and
  \<open>pow(1, y)\<close> are 1 even for a NaN operand, a zero base gives 0 for a positive exponent
  and \<open>+\<infinity>\<close> for a negative one, a negative finite base with a non-integer exponent gives
  NaN.
\<close>

definition pow :: "double \<Rightarrow> double \<Rightarrow> double" where
  "pow x y =
     (if y = Fin 0 then Fin 1
      else if x = Fin 1 then Fin 1
      else (case (x, y) of
          (NaN, _) \<Rightarrow> NaN
        | (_, NaN) \<Rightarrow> NaN
        | (Fin a, Fin b) \<Rightarrow>
            if 0 < a then Fin (a powr b)
            else if a = 0 then (if 0 < b then Fin 0 else PInf)
            else if is_int b then Fin (a powi \<lfloor>b\<rfloor>)
            else NaN
        | (Fin a, PInf) \<Rightarrow> if \<bar>a\<bar> < 1 then Fin 0 else if \<bar>a\<bar> = 1 then Fin 1 else PInf
        | (Fin a, NInf) \<Rightarrow> if \<bar>a\<bar> < 1 then PInf else if \<bar>a\<bar> = 1 then Fin 1 else Fin 0
        | (PInf, Fin b) \<Rightarrow> if 0 < b then PInf else Fin 0
        | (PInf, PInf) \<Rightarrow> PInf
        | (PInf, NInf) \<Rightarrow> Fin 0
        | (NInf, Fin b) \<Rightarrow>
            if 0 < b then (if is_int b \<and> odd \<lfloor>b\<rfloor> then NInf else PInf) else Fin 0
        | (NInf, PInf) \<Rightarrow> PInf
        | (NInf, NInf) \<Rightarrow> Fin 0))"

section \<open>Quantisation: \<open>u16clamp\<close>\<close>

text \<open>
  A C computation either returns a value or has undefined behaviour. The only undefined
  behaviour the model tracks is the conversion of a double to \<open>uint16_t\<close> when the
  truncated value does not fit (or the double is not finite).
\<close>

datatype 'a c_result = UB | Ret 'a

definition cast_u16 :: "double \<Rightarrow> 16 word c_result" where
  "cast_u16 x =
     (case x of
        Fin v \<Rightarrow>
          (let t = (if 0 \<le> v then \<lfloor>v\<rfloor> else \<lceil>v\<rceil>)
           in if 0 \<le> t \<and> t \<le> 65535 then Ret (word_of_int t) else UB)
      | _ \<Rightarrow> UB)"

definition u16clamp :: "double \<Rightarrow> 16 word c_result" where
  "u16clamp x =
     (if d_lt x (Fin 0) then Ret 0
      else if d_gt x (Fin 65535) then Ret 65535
      else cast_u16 (d_add x (Fin (1 / 2))))"

section \<open>Table synthesis: the loop of \<open>set_gamma_lut\<close>\<close>

text \<open>
  \<open>struct drm_color_lut\<close> of the kernel's \<open>drm_mode.h\<close>: four 16-bit fields. The loop
  writes the three colour fields; \<open>reserved\<close> keeps the zero \<open>calloc\<close> gave it.
\<close>

record drm_color_lut =
  red :: "16 word"
  green :: "16 word"
  blue :: "16 word"
  reserved :: "16 word"

text \<open>The six doubles \<open>set_gamma_lut\<close> receives besides the device and the CRTC.\<close>

datatype lut_params = LutParams double double double double double double

text \<open>
  The luminance of entry \<open>i\<close>: \<open>x = (double)i / (double)(lut_size - 1)\<close>,
  \<open>y = pow(fmax(0.0, x + lift), gamma_pow) * gain\<close>, then the two guards
  \<open>if (y < 0.0) y = 0.0; if (y > 1.0) y = 1.0;\<close>. The index is a \<open>uint32_t\<close>, the table
  size a \<open>uint64_t\<close>, and \<open>lut_size - 1\<close> is computed in 64 bits.
\<close>

definition lut_x :: "64 word \<Rightarrow> 32 word \<Rightarrow> double" where
  "lut_x lut_size i = d_div (Fin (real (unat i))) (Fin (real (unat (lut_size - 1))))"

fun lut_y :: "lut_params \<Rightarrow> 64 word \<Rightarrow> 32 word \<Rightarrow> double" where
  "lut_y (LutParams gamma_pow lift gain r_mult g_mult b_mult) lut_size i =
     (let x = lut_x lut_size i;
          y = d_mul (pow (fmax (Fin 0) (d_add x lift)) gamma_pow) gain;
          y = (if d_lt y (Fin 0) then Fin 0 else y);
          y = (if d_gt y (Fin 1) then Fin 1 else y)
      in y)"

text \<open>\<open>fmax(0.0, fmin(1.0, y * mult))\<close>, the value of one colour channel before scaling.\<close>

definition lut_channel :: "double \<Rightarrow> double \<Rightarrow> double" where
  "lut_channel y mult = fmax (Fin 0) (fmin (Fin 1) (d_mul y mult))"

fun lut_entry :: "lut_params \<Rightarrow> 64 word \<Rightarrow> 32 word \<Rightarrow> drm_color_lut \<Rightarrow> drm_color_lut c_result" where
  "lut_entry (LutParams gamma_pow lift gain r_mult g_mult b_mult) lut_size i old =
     (let y = lut_y (LutParams gamma_pow lift gain r_mult g_mult b_mult) lut_size i;
          r = lut_channel y r_mult;
          g = lut_channel y g_mult;
          b = lut_channel y b_mult
      in case u16clamp (d_mul r (Fin 65535)) of UB \<Rightarrow> UB | Ret rv \<Rightarrow>
         (case u16clamp (d_mul g (Fin 65535)) of UB \<Rightarrow> UB | Ret gv \<Rightarrow>
         (case u16clamp (d_mul b (Fin 65535)) of UB \<Rightarrow> UB | Ret bv \<Rightarrow>
            Ret (old\<lparr>red := rv, green := gv, blue := bv\<rparr>))))"

text \<open>
  \<open>for (uint32_t i = 0; i < lut_size; i++)\<close>: the comparison promotes \<open>i\<close> to 64 bits
  and \<open>i++\<close> wraps at \<open>2^32\<close>. A run that never leaves the loop has the value \<open>None\<close>.
\<close>

partial_function (option) lut_loop ::
  "lut_params \<Rightarrow> 64 word \<Rightarrow> 32 word \<Rightarrow> drm_color_lut list \<Rightarrow> drm_color_lut list c_result option"
where
  "lut_loop p lut_size i lut =
     (if ucast i < lut_size then
        (case lut_entry p lut_size i (lut ! unat i) of
           UB \<Rightarrow> Some UB
         | Ret e \<Rightarrow> lut_loop p lut_size (i + 1) (lut[unat i := e]))
      else Some (Ret lut))"

definition zero_lut :: drm_color_lut where
  "zero_lut = \<lparr>red = 0, green = 0, blue = 0, reserved = 0\<rparr>"

text \<open>
  \<open>calloc(lut_size, sizeof(*lut))\<close> followed by the loop: the table \<open>set_gamma_lut\<close>
  hands to \<open>drmModeCreatePropertyBlob\<close>. The allocation is taken to succeed; the search
  for the \<open>GAMMA_LUT\<close> properties before it and the commit after it are calls into the DRM
  library and stay outside the model.
\<close>

definition gamma_lut :: "lut_params \<Rightarrow> 64 word \<Rightarrow> drm_color_lut list c_result option" where
  "gamma_lut p lut_size = lut_loop p lut_size 0 (replicate (unat lut_size) zero_lut)"

section \<open>Numbers read from text\<close>

text \<open>
  \<open>strtod\<close> and \<open>strtoul\<close> belong to the C library, not to the program: they are
  parameters of the model. Each returns the converted value, the number of characters it
  consumed (\<open>end - s\<close>) and whether it set \<open>errno\<close>. \<open>unsigned long\<close> has 64 bits on the
  program's platform.
\<close>

record libc =
  strtod :: "string \<Rightarrow> double \<times> nat \<times> bool"
  strtoul :: "string \<Rightarrow> 64 word \<times> nat \<times> bool"

definition parse_uint32 :: "libc \<Rightarrow> string \<Rightarrow> 32 word option" where
  "parse_uint32 L s =
     (case strtoul L s of (v, n, err) \<Rightarrow>
        if err \<or> n = 0 \<or> drop n s \<noteq> [] then None else Some (ucast v))"

definition parse_double_strict :: "libc \<Rightarrow> string \<Rightarrow> double option" where
  "parse_double_strict L s =
     (case strtod L s of (v, n, err) \<Rightarrow>
        if err \<or> n = 0 \<or> drop n s \<noteq> [] then None
        else if \<not> isfinite v then None
        else Some v)"

text \<open>
  What the program prints, in order. The first group goes to \<open>stderr\<close>, the last four
  constructors are the lines of \<open>stdout\<close>.
\<close>

datatype event =
    Usage
  | CrtcRequiresArg
  | InvalidCrtcValue string
  | PresetsRequiresArg
  | UnknownOption string
  | ListNoPositional
  | MissingArguments
  | InvalidNumArgs int
  | GammaOutOfRange double double double
  | Invalid string string
  | OutOfRange string double double double
  | UnexpectedExtra
  | PresetNotFound string
  | ErrorParsing string
  | LacksGamma string
  | InvalidCrtcPreset string
  | InvalidCrtcConfig string
  | AvailableIn string
  | PresetName string
  | NoPresetsIn string
  | NoPresetsIni

definition parse_double_in_range ::
  "libc \<Rightarrow> string \<Rightarrow> string \<Rightarrow> double \<Rightarrow> double \<Rightarrow> double option \<times> event list" where
  "parse_double_in_range L label s minv maxv =
     (case parse_double_strict L s of
        None \<Rightarrow> (None, [Invalid label s])
      | Some v \<Rightarrow>
          if d_lt v minv \<or> d_gt v maxv then (None, [OutOfRange label v minv maxv])
          else (Some v, []))"

definition DEFAULT_CRTC :: "32 word" where "DEFAULT_CRTC = 68"
definition GAMMA_MIN :: double where "GAMMA_MIN = Fin (1 / 5)"
definition GAMMA_MAX :: double where "GAMMA_MAX = Fin 5"
definition LIFT_MIN :: double where "LIFT_MIN = Fin (- (1 / 2))"
definition LIFT_MAX :: double where "LIFT_MAX = Fin (1 / 2)"
definition GAIN_MIN :: double where "GAIN_MIN = Fin (1 / 2)"
definition GAIN_MAX :: double where "GAIN_MAX = Fin (3 / 2)"
definition MULT_MIN :: double where "MULT_MIN = Fin (1 / 2)"
definition MULT_MAX :: double where "MULT_MAX = Fin (3 / 2)"

section \<open>Preset files\<close>

text \<open>
  A file system maps the path of a readable file to its bytes. \<open>fgets(line, 512, f)\<close>
  takes at most 511 bytes and stops after a newline; the C string in the buffer ends at
  the first NUL byte.
\<close>

type_synonym files = "string \<Rightarrow> string option"

definition file_exists :: "files \<Rightarrow> string \<Rightarrow> bool" where
  "file_exists fs path = (fs path \<noteq> None)"

fun fgets :: "nat \<Rightarrow> string \<Rightarrow> string \<times> string" where
  "fgets 0 s = ([], s)"
| "fgets (Suc n) [] = ([], [])"
| "fgets (Suc n) (c # cs) =
     (if c = CHR 0x0A then ([c], cs)
      else (case fgets n cs of (l, rest) \<Rightarrow> (c # l, rest)))"

lemma fgets_rest_le: "length (snd (fgets n s)) \<le> length s"
  by (induction n s rule: fgets.induct) (auto split: prod.splits)

lemma fgets_shorter: "s \<noteq> [] \<Longrightarrow> length (snd (fgets (Suc n) s)) < length s"
proof (cases s)
  case Nil
  assume "s \<noteq> []"
  with Nil show ?thesis by simp
next
  case (Cons c cs)
  have "length (snd (fgets n cs)) \<le> length cs" by (rule fgets_rest_le)
  with Cons show ?thesis by (auto split: prod.splits)
qed

function file_lines :: "string \<Rightarrow> string list" where
  "file_lines s = (if s = [] then [] else fst (fgets 511 s) # file_lines (snd (fgets 511 s)))"
  by pat_completeness auto
termination
proof (relation "measure length")
  show "wf (measure length)" by simp
next
  fix s :: string
  assume "s \<noteq> []"
  then have "length (snd (fgets (Suc 510) s)) < length s" by (rule fgets_shorter)
  then show "(snd (fgets 511 s), s) \<in> measure length" by simp
qed

definition c_line :: "string \<Rightarrow> string" where
  "c_line chunk = takeWhile (\<lambda>c. c \<noteq> CHR 0x00) chunk"

text \<open>\<open>char *sc = strpbrk(line, "#;"); if (sc) *sc = '\0';\<close>\<close>

definition strip_comment :: "string \<Rightarrow> string" where
  "strip_comment line = takeWhile (\<lambda>c. c \<noteq> CHR ''#'' \<and> c \<noteq> CHR '';'') line"

definition is_blank :: "char \<Rightarrow> bool" where
  "is_blank c = (c = CHR '' '' \<or> c = CHR 0x09 \<or> c = CHR 0x0D \<or> c = CHR 0x0A)"

text \<open>\<open>s_trim\<close>: left trim, right trim, then one UTF-8 byte-order mark is removed.\<close>

definition s_trim :: "string \<Rightarrow> string" where
  "s_trim s =
     (let s1 = dropWhile is_blank s;
          s2 = rev (dropWhile is_blank (rev s1))
      in if take 3 s2 = [CHR 0xEF, CHR 0xBB, CHR 0xBF] then drop 3 s2 else s2)"

text \<open>The three scanners start every iteration the same way.\<close>

definition clean_line :: "string \<Rightarrow> string" where
  "clean_line chunk = s_trim (strip_comment (c_line chunk))"

text \<open>
  For a line that starts with \<open>[\<close>: the text up to the first \<open>]\<close>, cut to 255 bytes
  (\<open>strnlen(line+1, sizeof(name)-1)\<close>) and trimmed; \<open>None\<close> when the line has no \<open>]\<close>.
\<close>

definition section_name :: "string \<Rightarrow> string option" where
  "section_name line =
     (if CHR '']'' \<in> set line
      then Some (s_trim (take 255 (takeWhile (\<lambda>c. c \<noteq> CHR '']'') (tl line))))
      else None)"

text \<open>\<open>char *eq = strchr(line, '='); *eq = '\0'; key = line; val = eq + 1;\<close> and the two trims.\<close>

definition split_key_value :: "string \<Rightarrow> (string \<times> string) option" where
  "split_key_value line =
     (if CHR ''='' \<in> set line
      then Some (s_trim (takeWhile (\<lambda>c. c \<noteq> CHR ''='') line),
                 s_trim (tl (dropWhile (\<lambda>c. c \<noteq> CHR ''='') line)))
      else None)"

record preset_vals =
  have_gamma :: bool
  have_lift :: bool
  have_gain :: bool
  have_r :: bool
  have_g :: bool
  have_b :: bool
  gamma :: double
  lift :: double
  gain :: double
  r :: double
  g :: double
  b :: double
  have_crtc :: bool
  crtc :: "32 word"

text \<open>\<open>memset(pv, 0, sizeof(*pv))\<close>\<close>

definition zero_preset :: preset_vals where
  "zero_preset =
     \<lparr>have_gamma = False, have_lift = False, have_gain = False,
      have_r = False, have_g = False, have_b = False,
      gamma = Fin 0, lift = Fin 0, gain = Fin 0, r = Fin 0, g = Fin 0, b = Fin 0,
      have_crtc = False, crtc = 0\<rparr>"

text \<open>
  The chain of \<open>strcmp(key, ...)\<close> in \<open>load_preset_from_file\<close>: a recognised key stores
  its value and sets \<open>status = 1\<close>; a value that does not parse sets \<open>status = -1\<close> and
  leaves the loop; any other key is ignored.
\<close>

datatype key_result = Stored preset_vals | Failed "event list" | Ignored

definition preset_key :: "libc \<Rightarrow> string \<Rightarrow> string \<Rightarrow> preset_vals \<Rightarrow> key_result" where
  "preset_key L key val pv =
     (if key = ''gamma'' then
        (case parse_double_in_range L ''gamma'' val GAMMA_MIN GAMMA_MAX of
           (Some dtmp, ev) \<Rightarrow> Stored (pv\<lparr>gamma := dtmp, have_gamma := True\<rparr>)
         | (None, ev) \<Rightarrow> Failed ev)
      else if key = ''lift'' then
        (case parse_double_in_range L ''lift'' val LIFT_MIN LIFT_MAX of
           (Some dtmp, ev) \<Rightarrow> Stored (pv\<lparr>lift := dtmp, have_lift := True\<rparr>)
         | (None, ev) \<Rightarrow> Failed ev)
      else if key = ''gain'' then
        (case parse_double_in_range L ''gain'' val GAIN_MIN GAIN_MAX of
           (Some dtmp, ev) \<Rightarrow> Stored (pv\<lparr>gain := dtmp, have_gain := True\<rparr>)
         | (None, ev) \<Rightarrow> Failed ev)
      else if key = ''r'' then
        (case parse_double_in_range L ''r'' val MULT_MIN MULT_MAX of
           (Some dtmp, ev) \<Rightarrow> Stored (pv\<lparr>r := dtmp, have_r := True\<rparr>)
         | (None, ev) \<Rightarrow> Failed ev)
      else if key = ''g'' then
        (case parse_double_in_range L ''g'' val MULT_MIN MULT_MAX of
           (Some dtmp, ev) \<Rightarrow> Stored (pv\<lparr>g := dtmp, have_g := True\<rparr>)
         | (None, ev) \<Rightarrow> Failed ev)
      else if key = ''b'' then
        (case parse_double_in_range L ''b'' val MULT_MIN MULT_MAX of
           (Some dtmp, ev) \<Rightarrow> Stored (pv\<lparr>b := dtmp, have_b := True\<rparr>)
         | (None, ev) \<Rightarrow> Failed ev)
      else if key = ''crtc'' then
        (case parse_uint32 L val of
           Some utmp \<Rightarrow> Stored (pv\<lparr>crtc := utmp, have_crtc := True\<rparr>)
         | None \<Rightarrow> Failed [InvalidCrtcPreset val])
      else Ignored)"

text \<open>
  The \<open>while (fgets(...))\<close> loop of \<open>load_preset_from_file\<close> over the chunks of the
  file, with the loop's variables \<open>wanted\<close>, \<open>pv\<close> and \<open>status\<close>. The result is the
  returned status (1 loaded, 0 not found, -1 parse error), the preset and what was printed.
\<close>

fun load_preset_lines ::
  "libc \<Rightarrow> string \<Rightarrow> string list \<Rightarrow> bool \<Rightarrow> preset_vals \<Rightarrow> int \<Rightarrow> int \<times> preset_vals \<times> event list"
where
  "load_preset_lines L want [] wanted pv status = (status, pv, [])"
| "load_preset_lines L want (chunk # rest) wanted pv status =
     (let line = clean_line chunk in
      if line = [] then load_preset_lines L want rest wanted pv status
      else if hd line = CHR ''['' then
        (case section_name line of
           Some current \<Rightarrow> load_preset_lines L want rest (current = want) pv status
         | None \<Rightarrow> load_preset_lines L want rest wanted pv status)
      else if \<not> wanted then load_preset_lines L want rest wanted pv status
      else
        (case split_key_value line of
           None \<Rightarrow> load_preset_lines L want rest wanted pv status
         | Some (key, val) \<Rightarrow>
             (case preset_key L key val pv of
                Stored pv' \<Rightarrow> load_preset_lines L want rest wanted pv' 1
              | Failed ev \<Rightarrow> (- 1, pv, ev)
              | Ignored \<Rightarrow> load_preset_lines L want rest wanted pv status)))"

definition load_preset_from_file ::
  "libc \<Rightarrow> files \<Rightarrow> string \<Rightarrow> string \<Rightarrow> preset_vals \<Rightarrow> int \<times> preset_vals \<times> event list" where
  "load_preset_from_file L fs path want pv =
     (case fs path of
        None \<Rightarrow> (0, pv, [])
      | Some content \<Rightarrow> load_preset_lines L want (file_lines content) False pv 0)"

text \<open>
  The loop of \<open>load_config_crtc_from_file\<close>: the first \<open>crtc\<close> key inside a section named
  \<open>config\<close> ends the scan, with status 1 and the value or with status -1.
\<close>

fun load_config_lines ::
  "libc \<Rightarrow> string list \<Rightarrow> bool \<Rightarrow> 32 word \<Rightarrow> int \<times> 32 word \<times> event list"
where
  "load_config_lines L [] in_config out_crtc = (0, out_crtc, [])"
| "load_config_lines L (chunk # rest) in_config out_crtc =
     (let line = clean_line chunk in
      if line = [] then load_config_lines L rest in_config out_crtc
      else if hd line = CHR ''['' then
        (case section_name line of
           Some name \<Rightarrow> load_config_lines L rest (name = ''config'') out_crtc
         | None \<Rightarrow> load_config_lines L rest in_config out_crtc)
      else if \<not> in_config then load_config_lines L rest in_config out_crtc
      else
        (case split_key_value line of
           None \<Rightarrow> load_config_lines L rest in_config out_crtc
         | Some (key, val) \<Rightarrow>
             if key = ''crtc'' then
               (case parse_uint32 L val of
                  Some utmp \<Rightarrow> (1, utmp, [])
                | None \<Rightarrow> (- 1, out_crtc, [InvalidCrtcConfig val]))
             else load_config_lines L rest in_config out_crtc))"

definition load_config_crtc_from_file ::
  "libc \<Rightarrow> files \<Rightarrow> string \<Rightarrow> 32 word \<Rightarrow> int \<times> 32 word \<times> event list" where
  "load_config_crtc_from_file L fs path out_crtc =
     (case fs path of
        None \<Rightarrow> (0, out_crtc, [])
      | Some content \<Rightarrow> load_config_lines L (file_lines content) False out_crtc)"

definition load_config_crtc ::
  "libc \<Rightarrow> files \<Rightarrow> string option \<Rightarrow> 32 word \<Rightarrow> int \<times> 32 word \<times> event list" where
  "load_config_crtc L fs preset_path out_crtc =
     (case preset_path of
        Some path \<Rightarrow> load_config_crtc_from_file L fs path out_crtc
      | None \<Rightarrow>
          (case load_config_crtc_from_file L fs ''./presets.ini'' out_crtc of
             (st, out1, ev) \<Rightarrow>
               if st \<noteq> 0 then (st, out1, ev)
               else (case load_config_crtc_from_file L fs ''/etc/gamma-presets.ini'' out1 of
                       (st2, out2, ev2) \<Rightarrow> (st2, out2, ev @ ev2))))"

definition reset_preset :: preset_vals where
  "reset_preset =
     \<lparr>have_gamma = True, have_lift = True, have_gain = True,
      have_r = True, have_g = True, have_b = True,
      gamma = Fin 1, lift = Fin 0, gain = Fin 1, r = Fin 1, g = Fin 1, b = Fin 1,
      have_crtc = False, crtc = 0\<rparr>"

definition load_preset ::
  "libc \<Rightarrow> files \<Rightarrow> string \<Rightarrow> string option \<Rightarrow> int \<times> preset_vals \<times> event list" where
  "load_preset L fs name preset_path =
     (if name = ''reset'' then (1, reset_preset, [])
      else
        (case preset_path of
           Some path \<Rightarrow> load_preset_from_file L fs path name zero_preset
         | None \<Rightarrow>
             (case load_preset_from_file L fs ''./presets.ini'' name zero_preset of
                (st, pv, ev) \<Rightarrow>
                  if st \<noteq> 0 then (st, pv, ev)
                  else (case load_preset_from_file L fs ''/etc/gamma-presets.ini'' name pv of
                          (st2, pv2, ev2) \<Rightarrow> (st2, pv2, ev @ ev2)))))"

text \<open>
  The loop of \<open>list_presets_from_file\<close>, with its counter. The counter is a C \<open>int\<close>;
  it is modelled without a bound (a wrap-around needs more than \<open>2^31\<close> section lines).
\<close>

fun list_presets_lines :: "string \<Rightarrow> string list \<Rightarrow> int \<Rightarrow> int \<times> event list" where
  "list_presets_lines path [] count = (count, [])"
| "list_presets_lines path (chunk # rest) count =
     (let line = clean_line chunk in
      if line = [] then list_presets_lines path rest count
      else if hd line = CHR ''['' then
        (case section_name line of
           Some name \<Rightarrow>
             if name \<noteq> [] \<and> name \<noteq> ''config'' then
               (case list_presets_lines path rest (count + 1) of
                  (n, ev) \<Rightarrow>
                    (n, (if count = 0 then [AvailableIn path] else []) @ PresetName name # ev))
             else list_presets_lines path rest count
         | None \<Rightarrow> list_presets_lines path rest count)
      else list_presets_lines path rest count)"

definition list_presets_from_file :: "files \<Rightarrow> string \<Rightarrow> int \<times> event list" where
  "list_presets_from_file fs path =
     (case fs path of
        None \<Rightarrow> (0, [])
      | Some content \<Rightarrow> list_presets_lines path (file_lines content) 0)"

definition list_all_presets :: "files \<Rightarrow> string option \<Rightarrow> event list" where
  "list_all_presets fs preset_path =
     (case (case preset_path of
              Some path \<Rightarrow>
                if file_exists fs path then list_presets_from_file fs path else (0, [])
            | None \<Rightarrow>
                (case (if file_exists fs ''./presets.ini''
                       then list_presets_from_file fs ''./presets.ini'' else (0, [])) of
                   (n1, ev1) \<Rightarrow>
                     (case (if file_exists fs ''/etc/gamma-presets.ini''
                            then list_presets_from_file fs ''/etc/gamma-presets.ini'' else (0, [])) of
                        (n2, ev2) \<Rightarrow> (n1 + n2, ev1 @ ev2)))) of
        (total_count, ev) \<Rightarrow>
          ev
          @ (if total_count = 0
             then [case preset_path of Some path \<Rightarrow> NoPresetsIn path | None \<Rightarrow> NoPresetsIni]
             else [])
          @ [PresetName ''reset''])"

section \<open>\<open>main\<close>\<close>

text \<open>
  \<open>main\<close> either returns an exit code before it touches the display hardware, or it goes
  on to open the DRM device and call \<open>set_gamma_lut\<close> with a CRTC and six doubles. The
  arguments are \<open>argv[1..]\<close>.
\<close>

datatype outcome = Exit int | Drm "32 word" lut_params

text \<open>The variables the option loop of \<open>main\<close> sets.\<close>

record opts =
  opt_crtc_id :: "32 word"
  opt_crtc_override :: bool
  opt_preset_path :: "string option"
  opt_list_mode :: bool

datatype opts_result = OptExit int "event list" | OptDone opts "string list"

fun parse_opts :: "libc \<Rightarrow> string list \<Rightarrow> opts \<Rightarrow> opts_result" where
  "parse_opts L [] st = OptDone st []"
| "parse_opts L (a # rest) st =
     (if a = ''-h'' \<or> a = ''--help'' then OptExit 0 [Usage]
      else if a = ''--list'' then parse_opts L rest (st\<lparr>opt_list_mode := True\<rparr>)
      else if a = ''--crtc'' then
        (case rest of
           [] \<Rightarrow> OptExit 2 [CrtcRequiresArg]
         | v # rest' \<Rightarrow>
             (case parse_uint32 L v of
                None \<Rightarrow> OptExit 2 [InvalidCrtcValue v, Usage]
              | Some tmp \<Rightarrow>
                  parse_opts L rest' (st\<lparr>opt_crtc_id := tmp, opt_crtc_override := True\<rparr>)))
      else if a = ''--presets'' then
        (case rest of
           [] \<Rightarrow> OptExit 2 [PresetsRequiresArg]
         | path # rest' \<Rightarrow> parse_opts L rest' (st\<lparr>opt_preset_path := Some path\<rparr>))
      else if a \<noteq> [] \<and> hd a = CHR ''-'' then OptExit 2 [UnknownOption a, Usage]
      else OptDone st (a # rest))"

definition initial_opts :: opts where
  "initial_opts =
     \<lparr>opt_crtc_id = DEFAULT_CRTC, opt_crtc_override = False,
      opt_preset_path = None, opt_list_mode = False\<rparr>"

text \<open>
  One line \<open>if (j < argc && !parse_double_in_range(label, argv[j++], ...)) return 2;\<close>:
  with no argument left the default stays, otherwise the argument is parsed and consumed.
\<close>

definition next_arg ::
  "libc \<Rightarrow> string \<Rightarrow> double \<Rightarrow> double \<Rightarrow> double \<Rightarrow> string list
   \<Rightarrow> (double \<times> string list) option \<times> event list" where
  "next_arg L label minv maxv dflt rest =
     (case rest of
        [] \<Rightarrow> (Some (dflt, []), [])
      | a # rest' \<Rightarrow>
          (case parse_double_in_range L label a minv maxv of
             (None, ev) \<Rightarrow> (None, ev)
           | (Some v, ev) \<Rightarrow> (Some (v, rest'), ev)))"

text \<open>The branch \<open>if (first_is_number)\<close>; \<open>pos\<close> is \<open>argv[i..]\<close>.\<close>

definition numeric_path :: "libc \<Rightarrow> string list \<Rightarrow> 32 word \<Rightarrow> double \<Rightarrow> outcome \<times> event list" where
  "numeric_path L pos crtc_id gamma_pow =
     (let remaining = int (length pos) in
      if remaining < 1 \<or> remaining > 6 then (Exit 2, [InvalidNumArgs remaining, Usage])
      else if d_lt gamma_pow GAMMA_MIN \<or> d_gt gamma_pow GAMMA_MAX
        then (Exit 2, [GammaOutOfRange gamma_pow GAMMA_MIN GAMMA_MAX])
      else
        (case next_arg L ''lift'' LIFT_MIN LIFT_MAX (Fin 0) (tl pos) of
           (None, ev) \<Rightarrow> (Exit 2, ev)
         | (Some (lift_v, rest1), _) \<Rightarrow>
        (case next_arg L ''gain'' GAIN_MIN GAIN_MAX (Fin 1) rest1 of
           (None, ev) \<Rightarrow> (Exit 2, ev)
         | (Some (gain_v, rest2), _) \<Rightarrow>
        (case next_arg L ''r'' MULT_MIN MULT_MAX (Fin 1) rest2 of
           (None, ev) \<Rightarrow> (Exit 2, ev)
         | (Some (r_v, rest3), _) \<Rightarrow>
        (case next_arg L ''g'' MULT_MIN MULT_MAX (Fin 1) rest3 of
           (None, ev) \<Rightarrow> (Exit 2, ev)
         | (Some (g_v, rest4), _) \<Rightarrow>
        (case next_arg L ''b'' MULT_MIN MULT_MAX (Fin 1) rest4 of
           (None, ev) \<Rightarrow> (Exit 2, ev)
         | (Some (b_v, rest5), _) \<Rightarrow>
             if rest5 \<noteq> [] then (Exit 2, [UnexpectedExtra])
             else (Drm crtc_id (LutParams gamma_pow lift_v gain_v r_v g_v b_v), [])))))))"

text \<open>The \<open>else\<close> branch: the first positional argument names a preset.\<close>

definition preset_branch ::
  "libc \<Rightarrow> files \<Rightarrow> string \<Rightarrow> string option \<Rightarrow> 32 word \<Rightarrow> outcome \<times> event list" where
  "preset_branch L fs preset preset_path crtc_id =
     (case load_preset L fs preset preset_path of
        (st, pv, ev) \<Rightarrow>
          if st = 0 then
            (Exit 2, ev @ PresetNotFound preset # list_all_presets fs preset_path)
          else if st < 0 then (Exit 2, ev @ [ErrorParsing preset])
          else if \<not> have_gamma pv then (Exit 2, ev @ [LacksGamma preset])
          else
            (Drm (if have_crtc pv then crtc pv else crtc_id)
               (LutParams (gamma pv)
                  (if have_lift pv then lift pv else Fin 0)
                  (if have_gain pv then gain pv else Fin 1)
                  (if have_r pv then r pv else Fin 1)
                  (if have_g pv then g pv else Fin 1)
                  (if have_b pv then b pv else Fin 1)),
             ev))"

definition main :: "libc \<Rightarrow> files \<Rightarrow> string list \<Rightarrow> outcome \<times> event list" where
  "main L fs args =
     (case parse_opts L args initial_opts of
        OptExit code ev \<Rightarrow> (Exit code, ev)
      | OptDone st pos \<Rightarrow>
          (case (if \<not> opt_crtc_override st
                 then load_config_crtc L fs (opt_preset_path st) 0
                 else (0, 0, [])) of
             (cst, config_crtc, ev1) \<Rightarrow>
               if cst < 0 then (Exit 2, ev1)
               else
                 (let crtc_id = (if cst > 0 then config_crtc else opt_crtc_id st) in
                  if opt_list_mode st then
                    (if pos \<noteq> [] then (Exit 2, ev1 @ [ListNoPositional])
                     else (Exit 0, ev1 @ list_all_presets fs (opt_preset_path st)))
                  else
                    (case pos of
                       [] \<Rightarrow> (Exit 2, ev1 @ [MissingArguments, Usage])
                     | a # _ \<Rightarrow>
                         (case parse_double_strict L a of
                            Some gamma_pow \<Rightarrow>
                              (case numeric_path L pos crtc_id gamma_pow of
                                 (res, ev2) \<Rightarrow> (res, ev1 @ ev2))
                          | None \<Rightarrow>
                              (case preset_branch L fs a (opt_preset_path st) crtc_id of
                                 (res, ev2) \<Rightarrow> (res, ev1 @ ev2)))))))"

section \<open>The specification's formulas\<close>

text \<open>
  The curve as the specification words it, on real numbers:
  \<open>y = clamp01(max(0, x + lift) ^ gamma * gain)\<close>, \<open>value_c = clamp01(y * multiplier_c)\<close>,
  quantised as \<open>round(value_c * 65535)\<close>.
\<close>

definition clamp01 :: "real \<Rightarrow> real" where
  "clamp01 v = max 0 (min 1 v)"

definition spec_y :: "real \<Rightarrow> real \<Rightarrow> real \<Rightarrow> real \<Rightarrow> real" where
  "spec_y ga li gn x = clamp01 ((max 0 (x + li)) powr ga * gn)"

definition spec_value :: "real \<Rightarrow> real \<Rightarrow> real \<Rightarrow> real \<Rightarrow> real \<Rightarrow> int" where
  "spec_value ga li gn m x = round (clamp01 (spec_y ga li gn x * m) * 65535)"

text \<open>Finite parameters, and the declared ranges of the six of them.\<close>

definition mk_params :: "real \<Rightarrow> real \<Rightarrow> real \<Rightarrow> real \<Rightarrow> real \<Rightarrow> real \<Rightarrow> lut_params" where
  "mk_params ga li gn rm gm bm = LutParams (Fin ga) (Fin li) (Fin gn) (Fin rm) (Fin gm) (Fin bm)"

definition in_ranges :: "real \<Rightarrow> real \<Rightarrow> real \<Rightarrow> real \<Rightarrow> real \<Rightarrow> real \<Rightarrow> bool" where
  "in_ranges ga li gn rm gm bm =
     (1 / 5 \<le> ga \<and> ga \<le> 5 \<and> - (1 / 2) \<le> li \<and> li \<le> 1 / 2 \<and> 1 / 2 \<le> gn \<and> gn \<le> 3 / 2
      \<and> 1 / 2 \<le> rm \<and> rm \<le> 3 / 2 \<and> 1 / 2 \<le> gm \<and> gm \<le> 3 / 2 \<and> 1 / 2 \<le> bm \<and> bm \<le> 3 / 2)"

section \<open>The specification's view of a preset file\<close>

text \<open>
  The resource search order: the \<open>--presets\<close> path alone when it is given, otherwise the
  project-local file and then the system-wide one.
\<close>

definition search_order :: "string option \<Rightarrow> string list" where
  "search_order preset_path =
     (case preset_path of
        Some path \<Rightarrow> [path]
      | None \<Rightarrow> [''./presets.ini'', ''/etc/gamma-presets.ini''])"

text \<open>
  The section headers of a file, in file order: a line that, once its comment is stripped
  and it is trimmed, starts with \<open>[\<close> and holds a \<open>]\<close> names a section.
\<close>

definition header_name :: "string \<Rightarrow> string option" where
  "header_name chunk =
     (let line = clean_line chunk
      in if line \<noteq> [] \<and> hd line = CHR ''['' then section_name line else None)"

definition section_names :: "string \<Rightarrow> string list" where
  "section_names content = List.map_filter header_name (file_lines content)"

text \<open>What a listing shows of one file: its nonempty section names but \<open>config\<close>.\<close>

definition listed_names :: "files \<Rightarrow> string \<Rightarrow> string list" where
  "listed_names fs path =
     (case fs path of
        None \<Rightarrow> []
      | Some content \<Rightarrow> filter (\<lambda>n. n \<noteq> [] \<and> n \<noteq> ''config'') (section_names content))"

text \<open>The preset names among the printed lines (the lines \<open>"  %s\n"\<close>).\<close>

definition printed_names :: "event list \<Rightarrow> string list" where
  "printed_names evs = List.map_filter (\<lambda>e. case e of PresetName n \<Rightarrow> Some n | _ \<Rightarrow> None) evs"

text \<open>
  The \<open>key = value\<close> lines of a file that stand in sections named \<open>want\<close>, in file order;
  sections of the same name in one file count as one.
\<close>

fun section_pairs_lines :: "string \<Rightarrow> string list \<Rightarrow> bool \<Rightarrow> (string \<times> string) list" where
  "section_pairs_lines want [] wanted = []"
| "section_pairs_lines want (chunk # rest) wanted =
     (let line = clean_line chunk in
      if line = [] then section_pairs_lines want rest wanted
      else if hd line = CHR ''['' then
        (case section_name line of
           Some current \<Rightarrow> section_pairs_lines want rest (current = want)
         | None \<Rightarrow> section_pairs_lines want rest wanted)
      else if \<not> wanted then section_pairs_lines want rest wanted
      else
        (case split_key_value line of
           None \<Rightarrow> section_pairs_lines want rest wanted
         | Some kv \<Rightarrow> kv # section_pairs_lines want rest wanted))"

definition section_pairs :: "files \<Rightarrow> string \<Rightarrow> string \<Rightarrow> (string \<times> string) list" where
  "section_pairs fs path want =
     (case fs path of
        None \<Rightarrow> []
      | Some content \<Rightarrow> section_pairs_lines want (file_lines content) False)"

definition recognised_keys :: "string list" where
  "recognised_keys = [''gamma'', ''lift'', ''gain'', ''r'', ''g'', ''b'', ''crtc'']"

text \<open>A file supplies a preset when a section of that name holds a recognised key.\<close>

definition supplies_preset :: "files \<Rightarrow> string \<Rightarrow> string \<Rightarrow> bool" where
  "supplies_preset fs path want =
     list_ex (\<lambda>kv. fst kv \<in> set recognised_keys) (section_pairs fs path want)"


text \<open>Storing a list of \<open>key = value\<close> lines one after the other, as the loop does.\<close>

fun apply_pairs ::
  "libc \<Rightarrow> (string \<times> string) list \<Rightarrow> preset_vals \<Rightarrow> int \<Rightarrow> int \<times> preset_vals \<times> event list"
where
  "apply_pairs L [] pv status = (status, pv, [])"
| "apply_pairs L (kv # rest) pv status =
     (case preset_key L (fst kv) (snd kv) pv of
        Stored pv' \<Rightarrow> apply_pairs L rest pv' 1
      | Failed ev \<Rightarrow> (- 1, pv, ev)
      | Ignored \<Rightarrow> apply_pairs L rest pv status)"











text \<open>The resource \<open>load_config_crtc\<close> reads first.\<close>

definition first_resource :: "string option \<Rightarrow> string" where
  "first_resource preset_path = hd (search_order preset_path)"

section \<open>Sample inputs\<close>

text \<open>
  A stand-in for the C library on the few strings the examples use; on each of them it
  answers as \<open>strtod\<close> and \<open>strtoul\<close> do, on every other string it reports no conversion.
\<close>

definition demo_libc :: libc where
  "demo_libc =
     \<lparr>strtod = (\<lambda>s.
         if s = ''1.0'' then (Fin 1, 3, False)
         else if s = ''2.0'' then (Fin 2, 3, False)
         else if s = ''0.1'' then (Fin (1 / 10), 3, False)
         else if s = ''0.51'' then (Fin (51 / 100), 4, False)
         else (Fin 0, 0, False)),
      strtoul = (\<lambda>s. if s = ''70'' then (70, 2, False) else (0, 0, False))\<rparr>"

definition no_files :: files where
  "no_files = (\<lambda>path. None)"

text \<open>Two preset files that both define \<open>[warm]\<close>.\<close>

definition two_warm_files :: files where
  "two_warm_files =
     (\<lambda>path.
        if path = ''./presets.ini''
          then Some ''[warm]\<newline>gamma = 2.0\<newline>[config]\<newline>crtc = 70\<newline>''
        else if path = ''/etc/gamma-presets.ini''
          then Some ''# system presets\<newline>[ warm ]\<newline>gamma=1.0\<newline>[]\<newline>''
        else None)"

text \<open>
  The local file has a \<open>[warm]\<close> section without any key, the system file has one with
  \<open>gamma\<close>.
\<close>

definition empty_warm_files :: files where
  "empty_warm_files =
     (\<lambda>path.
        if path = ''./presets.ini'' then Some ''[warm]\<newline># to do\<newline>''
        else if path = ''/etc/gamma-presets.ini'' then Some ''[warm]\<newline>gamma=2.0\<newline>''
        else None)"


text \<open>A local file whose \<open>[config]\<close> section holds a \<open>crtc\<close> that is no integer.\<close>

definition bad_config_files :: files where
  "bad_config_files =
     (\<lambda>path.
        if path = ''./presets.ini'' then Some ''[config]\<newline>crtc = abc\<newline>[warm]\<newline>gamma = 2.0\<newline>''
        else None)"

section \<open>Properties of the table synthesis\<close>

lemma fmax_Fin: "fmax (Fin u) (Fin v) = Fin (max u v)"
  by (simp add: fmax_def max_def)

lemma fmin_Fin: "fmin (Fin u) (Fin v) = Fin (min u v)"
  by (simp add: fmin_def min_def)

lemma lut_channel_Fin: "lut_channel (Fin y) (Fin m) = Fin (max 0 (min 1 (y * m)))"
  by (simp add: lut_channel_def fmax_Fin fmin_Fin)

lemma lut_channel_unit: "\<exists>c. lut_channel y m = Fin c \<and> 0 \<le> c \<and> c \<le> 1"
proof (cases "d_mul y m")
  case (Fin v)
  then show ?thesis by (simp add: lut_channel_def fmax_Fin fmin_Fin)
next
  case PInf
  then show ?thesis by (simp add: lut_channel_def fmax_def fmin_def)
next
  case NInf
  then show ?thesis by (simp add: lut_channel_def fmax_def fmin_def)
next
  case NaN
  then show ?thesis by (simp add: lut_channel_def fmax_def fmin_def)
qed

lemma u16clamp_Fin:
  assumes "0 \<le> v" "v \<le> 65535"
  shows "u16clamp (Fin v) = Ret (word_of_int (round v))"
proof -
  have "0 \<le> \<lfloor>v + 1 / 2\<rfloor>" using assms by simp
  moreover have "\<lfloor>v + 1 / 2\<rfloor> \<le> 65535" using assms by (simp add: floor_le_iff)
  ultimately show ?thesis using assms
    by (simp add: u16clamp_def d_gt_def cast_u16_def round_def Let_def)
qed

lemma u16clamp_channel:
  assumes "0 \<le> c" "c \<le> 1"
  shows "u16clamp (Fin (c * 65535)) = Ret (word_of_int (round (c * 65535)))"
  using assms by (simp add: u16clamp_Fin)


lemma pow_Fin_pos: 
  assumes "0 \<le> u" "0 < ga"
  shows "pow (Fin u) (Fin ga) = Fin (u powr ga)"
  using assms by (auto simp: pow_def)

lemma lut_x_Fin:
  assumes "2 \<le> unat N"
  shows "lut_x N i = Fin (real (unat i) / real (unat N - 1))"
proof -
  have "N \<noteq> 0" using assms by auto
  then have eq: "unat (N - 1) = unat N - 1" by (rule unat_minus_one)
  have "0 < unat N - 1" using assms by linarith
  then have "(0::real) < real (unat N - 1)" by (rule of_nat_0_less_iff [THEN iffD2])
  then have "real (unat N - 1) \<noteq> 0" by (rule less_imp_neq [THEN not_sym])
  then show ?thesis unfolding lut_x_def eq by (simp only: d_div.simps if_False)
qed

lemma lut_y_Fin:
  assumes "2 \<le> unat N" "0 < ga"
  shows "lut_y (mk_params ga li gn rm gm bm) N i
         = Fin (spec_y ga li gn (real (unat i) / real (unat N - 1)))"
  using assms
  by (simp add: lut_x_Fin mk_params_def fmax_Fin pow_Fin_pos d_gt_def
      spec_y_def clamp01_def Let_def max_def min_def)


lemma clamp01_bounds: "0 \<le> clamp01 v" "clamp01 v \<le> 1" "clamp01 v * 65535 \<le> 65535"
  by (simp_all add: clamp01_def)

lemma lut_entry_total: "\<exists>e. lut_entry p N i old = Ret e"
proof (cases p)
  case (LutParams ga li gn rm gm bm)
  obtain cr where cr: "lut_channel (lut_y p N i) rm = Fin cr" "0 \<le> cr" "cr \<le> 1"
    using lut_channel_unit by blast
  obtain cg where cg: "lut_channel (lut_y p N i) gm = Fin cg" "0 \<le> cg" "cg \<le> 1"
    using lut_channel_unit by blast
  obtain cb where cb: "lut_channel (lut_y p N i) bm = Fin cb" "0 \<le> cb" "cb \<le> 1"
    using lut_channel_unit by blast
  show ?thesis
    unfolding LutParams lut_entry.simps Let_def cr(1) [unfolded LutParams] cg(1) [unfolded LutParams]
      cb(1) [unfolded LutParams]
    by (simp add: u16clamp_channel cr cg cb)
qed


lemma unat_ucast_32_64: "unat (ucast (w :: 32 word) :: 64 word) = unat w"
proof -
  have "unat w < 2 ^ 32" using unsigned_less [of w] by simp
  then have "unat w < 2 ^ 64" by simp
  then show ?thesis by (simp add: unsigned_ucast_eq take_bit_nat_eq_self)
qed

lemma ucast_idx_less:
  fixes N :: "64 word"
  shows "(ucast (i :: 32 word) < N) = (unat i < unat N)"
  by (simp add: word_less_nat_alt unat_ucast_32_64)

lemma lut_loop_returns_small:
  assumes "lut_loop p N i lut = Some y"
  shows "unat N < 2 ^ 32"
proof (rule lut_loop.raw_induct [where P = "\<lambda>p N i lut y. unat N < 2 ^ 32", OF _ assms])
  fix f :: "lut_params \<Rightarrow> 64 word \<Rightarrow> 32 word \<Rightarrow> drm_color_lut list \<Rightarrow> drm_color_lut list c_result option"
  fix p N i lut y
  assume IH: "\<And>p N i lut y. f p N i lut = Some y \<Longrightarrow> unat N < 2 ^ 32"
  assume body: "(if ucast i < N then
        (case lut_entry p N i (lut ! unat i) of
           UB \<Rightarrow> Some UB
         | Ret e \<Rightarrow> f p N (i + 1) (lut[unat i := e]))
      else Some (Ret lut)) = Some y"
  show "unat N < 2 ^ 32"
  proof (cases "ucast i < N")
    case True
    obtain e where e: "lut_entry p N i (lut ! unat i) = Ret e"
      using lut_entry_total by blast
    from True e body have "f p N (i + 1) (lut[unat i := e]) = Some y" by simp
    then show ?thesis by (rule IH)
  next
    case False
    then have "unat N \<le> unat i" by (simp add: ucast_idx_less)
    moreover have "unat i < 2 ^ 32" using unsigned_less [of i] by simp
    ultimately show ?thesis by linarith
  qed
qed


lemma lut_loop_run:
  assumes "unat N < 2 ^ 32" "k \<le> unat N" "length lut = unat N"
  shows "\<exists>t. lut_loop p N (word_of_nat k) lut = Some (Ret t) \<and> length t = unat N
            \<and> (\<forall>j<k. t ! j = lut ! j)
            \<and> (\<forall>j. k \<le> j \<and> j < unat N \<longrightarrow> lut_entry p N (word_of_nat j) (lut ! j) = Ret (t ! j))"
  using assms
proof (induction "unat N - k" arbitrary: k lut)
  case 0
  then have k: "k = unat N" by simp
  have "unat (word_of_nat k :: 32 word) = k"
    using "0.prems" by (simp add: unat_of_nat)
  then have "\<not> ucast (word_of_nat k :: 32 word) < N"
    using k by (simp add: ucast_idx_less)
  then have "lut_loop p N (word_of_nat k) lut = Some (Ret lut)"
    by (subst lut_loop.simps) simp
  then show ?case using "0.prems" k by auto
next
  case (Suc d)
  then have klt: "k < unat N" by linarith
  have uk: "unat (word_of_nat k :: 32 word) = k"
    using Suc.prems klt by (simp add: unat_of_nat)
  then have guard: "ucast (word_of_nat k :: 32 word) < N"
    using klt by (simp add: ucast_idx_less)
  obtain e where e: "lut_entry p N (word_of_nat k) (lut ! k) = Ret e"
    using lut_entry_total by blast
  have step: "lut_loop p N (word_of_nat k) lut = lut_loop p N (word_of_nat (Suc k)) (lut[k := e])"
    using guard e uk by (subst lut_loop.simps) (simp add: add.commute)
  have "d = unat N - Suc k" using Suc.hyps(2) by linarith
  moreover have "Suc k \<le> unat N" using klt by simp
  moreover have "length (lut[k := e]) = unat N" using Suc.prems by simp
  ultimately obtain t where t:
    "lut_loop p N (word_of_nat (Suc k)) (lut[k := e]) = Some (Ret t)" "length t = unat N"
    "\<forall>j<Suc k. t ! j = lut[k := e] ! j"
    "\<forall>j. Suc k \<le> j \<and> j < unat N \<longrightarrow> lut_entry p N (word_of_nat j) (lut[k := e] ! j) = Ret (t ! j)"
    using Suc.hyps(1) [of "Suc k" "lut[k := e]"] Suc.prems(1) by blast
  have "t ! k = e" using t(3) klt Suc.prems(3) by simp
  then have a: "\<forall>j. k \<le> j \<and> j < unat N \<longrightarrow> lut_entry p N (word_of_nat j) (lut ! j) = Ret (t ! j)"
    using t(4) e by (metis Suc_leI le_neq_implies_less nat_neq_iff nth_list_update_neq)
  have b: "\<forall>j<k. t ! j = lut ! j" using t(3) by simp
  show ?case using step t(1,2) a b by simp
qed


lemma gamma_lut_run:
  assumes "unat N < 2 ^ 32"
  shows "\<exists>t. gamma_lut p N = Some (Ret t) \<and> length t = unat N
            \<and> (\<forall>j<unat N. lut_entry p N (word_of_nat j) zero_lut = Ret (t ! j))"
proof -
  have "length (replicate (unat N) zero_lut) = unat N" by simp
  from lut_loop_run [OF assms _ this, of 0 p]
  show ?thesis by (auto simp: gamma_lut_def)
qed







lemma lut_x_single: "lut_x 1 0 = NaN"
  by (simp add: lut_x_def)

lemma lut_y_single:
  assumes "0 < ga"
  shows "lut_y (mk_params ga li gn rm gm bm) 1 0 = Fin 0"
  using assms
  by (simp add: mk_params_def lut_x_single fmax_def pow_def d_gt_def)

lemma lut_y_unit:
  assumes "0 < ga" "1 \<le> unat N" "unat i < unat N"
  shows "\<exists>yv. lut_y (mk_params ga li gn rm gm bm) N i = Fin yv \<and> 0 \<le> yv \<and> yv \<le> 1"
proof (cases "2 \<le> unat N")
  case True
  then have "lut_y (mk_params ga li gn rm gm bm) N i
         = Fin (spec_y ga li gn (real (unat i) / real (unat N - 1)))"
    using assms(1) by (rule lut_y_Fin)
  then show ?thesis by (simp add: spec_y_def clamp01_bounds)
next
  case False
  with assms have "unat N = 1" "unat i = 0" by linarith+
  then have "N = 1" "i = 0" by (simp_all add: word_unat_eq_iff)
  then show ?thesis using lut_y_single [OF assms(1)] by simp
qed

lemma lut_base_floored:
  assumes "1 \<le> unat N" "unat i < unat N"
  shows "\<exists>bv. fmax (Fin 0) (d_add (lut_x N i) (Fin li)) = Fin bv \<and> 0 \<le> bv"
proof (cases "2 \<le> unat N")
  case True
  then show ?thesis by (simp add: lut_x_Fin fmax_Fin)
next
  case False
  with assms have "unat N = 1" "unat i = 0" by linarith+
  then have "N = 1" "i = 0" by (simp_all add: word_unat_eq_iff)
  then show ?thesis by (simp add: lut_x_single fmax_def)
qed

lemma lut_loop_no_ub:
  assumes "lut_loop p N i lut = Some y"
  shows "y \<noteq> UB"
proof (rule lut_loop.raw_induct [where P = "\<lambda>p N i lut y. y \<noteq> UB", OF _ assms])
  fix f :: "lut_params \<Rightarrow> 64 word \<Rightarrow> 32 word \<Rightarrow> drm_color_lut list \<Rightarrow> drm_color_lut list c_result option"
  fix p N i lut y
  assume IH: "\<And>p N i lut y. f p N i lut = Some y \<Longrightarrow> y \<noteq> UB"
  assume body: "(if ucast i < N then
        (case lut_entry p N i (lut ! unat i) of
           UB \<Rightarrow> Some UB
         | Ret e \<Rightarrow> f p N (i + 1) (lut[unat i := e]))
      else Some (Ret lut)) = Some y"
  show "y \<noteq> UB"
  proof (cases "ucast i < N")
    case True
    obtain e where e: "lut_entry p N i (lut ! unat i) = Ret e"
      using lut_entry_total by blast
    from True e body have "f p N (i + 1) (lut[unat i := e]) = Some y" by simp
    then show ?thesis by (rule IH)
  next
    case False
    with body show ?thesis by auto
  qed
qed

text \<open>
  Claim C5. For every parameter set within the declared ranges, every table length
  \<open>N \<ge> 1\<close> and every index the loop visits, the base of the power is a finite number
  floored at 0 (also when \<open>x + lift\<close> is negative or NaN), the luminance and the three channel
  values are finite numbers in \<open>[0, 1]\<close>, never NaN, the conversion to 16 bits is defined,
  and the red, green and blue values written lie in \<open>[0, 65535]\<close>. The loop never ends in
  undefined behaviour.
\<close>

theorem lut_entry_in_range:
  assumes "in_ranges ga li gn rm gm bm" "1 \<le> unat N" "unat i < unat N"
  shows "\<exists>bv yv cr cg cb e.
      fmax (Fin 0) (d_add (lut_x N i) (Fin li)) = Fin bv \<and> 0 \<le> bv
    \<and> lut_y (mk_params ga li gn rm gm bm) N i = Fin yv \<and> 0 \<le> yv \<and> yv \<le> 1
    \<and> lut_channel (Fin yv) (Fin rm) = Fin cr \<and> 0 \<le> cr \<and> cr \<le> 1
    \<and> lut_channel (Fin yv) (Fin gm) = Fin cg \<and> 0 \<le> cg \<and> cg \<le> 1
    \<and> lut_channel (Fin yv) (Fin bm) = Fin cb \<and> 0 \<le> cb \<and> cb \<le> 1
    \<and> lut_entry (mk_params ga li gn rm gm bm) N i old = Ret e
    \<and> 0 \<le> uint (red e) \<and> uint (red e) \<le> 65535
    \<and> 0 \<le> uint (green e) \<and> uint (green e) \<le> 65535
    \<and> 0 \<le> uint (blue e) \<and> uint (blue e) \<le> 65535
    \<and> gamma_lut (mk_params ga li gn rm gm bm) N \<noteq> Some UB"
proof -
  have ga: "0 < ga" using assms(1) by (simp add: in_ranges_def)
  obtain bv where bv: "fmax (Fin 0) (d_add (lut_x N i) (Fin li)) = Fin bv" "0 \<le> bv"
    using lut_base_floored [OF assms(2,3)] by blast
  obtain yv where yv: "lut_y (mk_params ga li gn rm gm bm) N i = Fin yv" "0 \<le> yv" "yv \<le> 1"
    using lut_y_unit [OF ga assms(2,3)] by blast
  obtain cr where cr: "lut_channel (Fin yv) (Fin rm) = Fin cr" "0 \<le> cr" "cr \<le> 1"
    using lut_channel_unit by blast
  obtain cg where cg: "lut_channel (Fin yv) (Fin gm) = Fin cg" "0 \<le> cg" "cg \<le> 1"
    using lut_channel_unit by blast
  obtain cb where cb: "lut_channel (Fin yv) (Fin bm) = Fin cb" "0 \<le> cb" "cb \<le> 1"
    using lut_channel_unit by blast
  obtain e where e: "lut_entry (mk_params ga li gn rm gm bm) N i old = Ret e"
    using lut_entry_total by blast
  have w: "0 \<le> uint w \<and> uint w \<le> 65535" for w :: "16 word"
    using uint_lt2p [of w] by simp
  have "gamma_lut (mk_params ga li gn rm gm bm) N \<noteq> Some UB"
    using lut_loop_no_ub unfolding gamma_lut_def by blast
  with bv yv cr cg cb e w show ?thesis by blast
qed

text \<open>
  The theorem at \<open>N = 1\<close>, \<open>i = 0\<close> with \<open>lift = -0.5\<close>: the position \<open>x\<close> is NaN there, the
  luminance is a number all the same.
\<close>

theorem lut_entry_in_range_witness:
  "in_ranges 1 (- (1 / 2)) 1 1 1 1 \<and> 1 \<le> unat (1 :: 64 word) \<and> unat (0 :: 32 word) < unat (1 :: 64 word)
   \<and> lut_x 1 0 = NaN
   \<and> (\<exists>yv e. lut_y (mk_params 1 (- (1 / 2)) 1 1 1 1) 1 0 = Fin yv
        \<and> lut_entry (mk_params 1 (- (1 / 2)) 1 1 1 1) 1 0 zero_lut = Ret e)"
proof -
  have h: "in_ranges 1 (- (1 / 2)) 1 1 1 1" by (simp add: in_ranges_def)
  have n: "1 \<le> unat (1 :: 64 word)" by simp
  have i: "unat (0 :: 32 word) < unat (1 :: 64 word)" by simp
  from lut_entry_in_range [OF h n i, of zero_lut] h lut_x_single show ?thesis by auto
qed


lemma gamma_lut_single:
  assumes "0 < ga"
  shows "gamma_lut (mk_params ga li gn rm gm bm) 1 = Some (Ret [zero_lut])"
proof -
  have y: "lut_y (mk_params ga li gn rm gm bm) 1 0 = Fin 0"
    using assms by (rule lut_y_single)
  have e: "lut_entry (mk_params ga li gn rm gm bm) 1 0 zero_lut = Ret zero_lut"
    unfolding mk_params_def lut_entry.simps Let_def y [unfolded mk_params_def]
    by (simp add: lut_channel_Fin u16clamp_Fin zero_lut_def)
  have stop: "lut_loop (mk_params ga li gn rm gm bm) 1 1 [zero_lut] = Some (Ret [zero_lut])"
    by (subst lut_loop.simps) simp
  have "lut_loop (mk_params ga li gn rm gm bm) 1 0 [zero_lut] = Some (Ret [zero_lut])"
    by (subst lut_loop.simps) (simp add: e stop)
  then show ?thesis by (simp add: gamma_lut_def)
qed

text \<open>
  Claim C4 says that for \<open>N = 1\<close> the single entry is computed at \<open>x = 0\<close>, that is from
  \<open>max(0, lift)\<close>. The code divides \<open>0.0\<close> by \<open>(double)(lut_size - 1) = 0.0\<close>: \<open>x\<close> is NaN,
  \<open>fmax(0.0, NaN + lift)\<close> is \<open>0.0\<close>, and the entry is black whatever the lift. With
  \<open>gamma = 1\<close>, \<open>lift = 0.5\<close>, \<open>gain = 1\<close> and multipliers 1 the specification's value
  is 32768 and the code writes 0.
\<close>

theorem single_entry_ignores_lift:
  "gamma_lut (mk_params 1 (1 / 2) 1 1 1 1) 1 = Some (Ret [zero_lut])
   \<and> uint (red zero_lut) = 0 \<and> spec_value 1 (1 / 2) 1 1 0 = 32768"
proof -
  have "gamma_lut (mk_params 1 (1 / 2) 1 1 1 1) 1 = Some (Ret [zero_lut])"
    by (rule gamma_lut_single) simp
  moreover have "spec_value 1 (1 / 2) 1 1 0 = 32768"
    by (simp add: spec_value_def spec_y_def clamp01_def round_def)
  ultimately show ?thesis by (simp add: zero_lut_def)
qed












section \<open>Properties of the listing and of the \<open>[config]\<close> scan\<close>

lemma printed_names_append: "printed_names (xs @ ys) = printed_names xs @ printed_names ys"
  by (simp add: printed_names_def List.map_filter_def)

lemma printed_names_simps:
  "printed_names [] = []"
  "printed_names (PresetName n # evs) = n # printed_names evs"
  "printed_names (AvailableIn p # evs) = printed_names evs"
  "printed_names (NoPresetsIn p # evs) = printed_names evs"
  "printed_names (NoPresetsIni # evs) = printed_names evs"
  by (simp_all add: printed_names_def List.map_filter_def)

lemma list_presets_lines_Cons:
  "list_presets_lines path (chunk # rest) c =
     (case header_name chunk of
        Some name \<Rightarrow>
          if name \<noteq> [] \<and> name \<noteq> ''config'' then
            (case list_presets_lines path rest (c + 1) of
               (m, ev) \<Rightarrow> (m, (if c = 0 then [AvailableIn path] else []) @ PresetName name # ev))
          else list_presets_lines path rest c
      | None \<Rightarrow> list_presets_lines path rest c)"
  by (simp add: header_name_def Let_def split: option.splits)

declare list_presets_lines.simps(2) [simp del]

lemma map_filter_Cons:
  "List.map_filter f (x # xs) = (case f x of None \<Rightarrow> List.map_filter f xs | Some y \<Rightarrow> y # List.map_filter f xs)"
  by (simp add: List.map_filter_def split: option.splits)

lemma list_presets_lines_names:
  "printed_names (snd (list_presets_lines path lines c))
     = filter (\<lambda>n. n \<noteq> [] \<and> n \<noteq> ''config'') (List.map_filter header_name lines)"
proof (induction lines arbitrary: c)
  case Nil
  show ?case by (simp add: printed_names_simps List.map_filter_def)
next
  case (Cons chunk rest)
  show ?case
  proof (cases "header_name chunk")
    case None
    then have "list_presets_lines path (chunk # rest) c = list_presets_lines path rest c"
      by (simp add: list_presets_lines_Cons)
    then show ?thesis using None Cons.IH [of c] by (simp add: map_filter_Cons)
  next
    case (Some name)
    show ?thesis
    proof (cases "name \<noteq> [] \<and> name \<noteq> ''config''")
      case True
      obtain m ev where r: "list_presets_lines path rest (c + 1) = (m, ev)"
        by (cases "list_presets_lines path rest (c + 1)")
      then have ih: "printed_names ev
          = filter (\<lambda>n. n \<noteq> [] \<and> n \<noteq> ''config'') (List.map_filter header_name rest)"
        using Cons.IH [of "c + 1"] by simp
      have "list_presets_lines path (chunk # rest) c
          = (m, (if c = 0 then [AvailableIn path] else []) @ PresetName name # ev)"
        using True Some r by (simp add: list_presets_lines_Cons)
      then have "printed_names (snd (list_presets_lines path (chunk # rest) c)) = name # printed_names ev"
        by (simp add: printed_names_append printed_names_simps)
      then show ?thesis using True Some ih by (simp add: map_filter_Cons)
    next
      case False
      then have "list_presets_lines path (chunk # rest) c = list_presets_lines path rest c"
        using Some by (auto simp add: list_presets_lines_Cons)
      then show ?thesis using False Some Cons.IH [of c] by (auto simp add: map_filter_Cons)
    qed
  qed
qed

lemma list_presets_from_file_names:
  "printed_names (snd (if file_exists fs path then list_presets_from_file fs path else (0, [])))
     = listed_names fs path"
proof (cases "fs path")
  case None
  then show ?thesis by (simp add: file_exists_def listed_names_def printed_names_simps)
next
  case (Some content)
  then show ?thesis
    by (simp add: file_exists_def list_presets_from_file_def listed_names_def section_names_def
        list_presets_lines_names)
qed


lemma list_all_presets_names:
  "printed_names (list_all_presets fs preset_path)
     = concat (map (listed_names fs) (search_order preset_path)) @ [''reset'']"
proof (cases preset_path)
  case None
  obtain n1 ev1 where 1: "(if file_exists fs ''./presets.ini''
      then list_presets_from_file fs ''./presets.ini'' else (0, [])) = (n1, ev1)"
    by (cases "if file_exists fs ''./presets.ini''
      then list_presets_from_file fs ''./presets.ini'' else (0, [])")
  obtain n2 ev2 where 2: "(if file_exists fs ''/etc/gamma-presets.ini''
      then list_presets_from_file fs ''/etc/gamma-presets.ini'' else (0, [])) = (n2, ev2)"
    by (cases "if file_exists fs ''/etc/gamma-presets.ini''
      then list_presets_from_file fs ''/etc/gamma-presets.ini'' else (0, [])")
  have a: "printed_names ev1 = listed_names fs ''./presets.ini''"
    using list_presets_from_file_names [of fs "''./presets.ini''"] unfolding 1 by simp
  have b: "printed_names ev2 = listed_names fs ''/etc/gamma-presets.ini''"
    using list_presets_from_file_names [of fs "''/etc/gamma-presets.ini''"] unfolding 2 by simp
  have "list_all_presets fs None
      = (ev1 @ ev2) @ (if n1 + n2 = 0 then [NoPresetsIni] else []) @ [PresetName ''reset'']"
    unfolding list_all_presets_def 1 2 by simp
  then show ?thesis
    unfolding None search_order_def
    by (simp add: printed_names_append printed_names_simps a b)
next
  case (Some path)
  obtain n1 ev1 where 1: "(if file_exists fs path
      then list_presets_from_file fs path else (0, [])) = (n1, ev1)"
    by (cases "if file_exists fs path then list_presets_from_file fs path else (0, [])")
  have a: "printed_names ev1 = listed_names fs path"
    using list_presets_from_file_names [of fs path] unfolding 1 by simp
  have "list_all_presets fs (Some path)
      = ev1 @ (if n1 = 0 then [NoPresetsIn path] else []) @ [PresetName ''reset'']"
    using 1 by (cases "file_exists fs path") (simp_all add: list_all_presets_def)
  then show ?thesis
    unfolding Some search_order_def
    by (simp add: printed_names_append printed_names_simps a)
qed


lemma load_config_lines_Cons:
  "load_config_lines L (chunk # rest) in_config out_crtc =
     (let line = clean_line chunk in
      if line = [] then load_config_lines L rest in_config out_crtc
      else if hd line = CHR ''['' then
        (case section_name line of
           Some name \<Rightarrow> load_config_lines L rest (name = ''config'') out_crtc
         | None \<Rightarrow> load_config_lines L rest in_config out_crtc)
      else if \<not> in_config then load_config_lines L rest in_config out_crtc
      else
        (case split_key_value line of
           None \<Rightarrow> load_config_lines L rest in_config out_crtc
         | Some (key, val) \<Rightarrow>
             if key = ''crtc'' then
               (case parse_uint32 L val of
                  Some utmp \<Rightarrow> (1, utmp, [])
                | None \<Rightarrow> (- 1, out_crtc, [InvalidCrtcConfig val]))
             else load_config_lines L rest in_config out_crtc))"
  by simp

declare load_config_lines.simps(2) [simp del]

lemma load_config_lines_shape:
  "(\<exists>v. load_config_lines L lines in_config out_crtc = (- 1, out_crtc, [InvalidCrtcConfig v]))
   \<or> load_config_lines L lines in_config out_crtc = (0, out_crtc, [])
   \<or> (\<exists>c. load_config_lines L lines in_config out_crtc = (1, c, []))"
proof (induction lines arbitrary: in_config)
  case Nil
  show ?case by simp
next
  case (Cons chunk rest)
  show ?case
    unfolding load_config_lines_Cons Let_def
    using Cons.IH
    by (auto split: option.splits prod.splits)
qed

lemma load_config_crtc_from_file_shape:
  "(\<exists>v. load_config_crtc_from_file L fs path out_crtc = (- 1, out_crtc, [InvalidCrtcConfig v]))
   \<or> load_config_crtc_from_file L fs path out_crtc = (0, out_crtc, [])
   \<or> (\<exists>c. load_config_crtc_from_file L fs path out_crtc = (1, c, []))"
proof (cases "fs path")
  case None
  then show ?thesis by (simp add: load_config_crtc_from_file_def)
next
  case (Some content)
  then show ?thesis
    using load_config_lines_shape [of L "file_lines content" False out_crtc]
    by (simp add: load_config_crtc_from_file_def)
qed

lemma load_config_crtc_shape:
  "(\<exists>v. load_config_crtc L fs preset_path out_crtc = (- 1, out_crtc, [InvalidCrtcConfig v]))
   \<or> load_config_crtc L fs preset_path out_crtc = (0, out_crtc, [])
   \<or> (\<exists>c. load_config_crtc L fs preset_path out_crtc = (1, c, []))"
proof (cases preset_path)
  case (Some path)
  then show ?thesis
    using load_config_crtc_from_file_shape [of L fs path out_crtc]
    by (simp add: load_config_crtc_def)
next
  case None
  show ?thesis
    using load_config_crtc_from_file_shape [of L fs "''./presets.ini''" out_crtc]
      load_config_crtc_from_file_shape [of L fs "''/etc/gamma-presets.ini''" out_crtc]
    unfolding None load_config_crtc_def
    by auto
qed

lemma load_config_crtc_first_error:
  assumes "fst (load_config_crtc_from_file L fs (first_resource preset_path) out_crtc) = - 1"
  shows "\<exists>v. load_config_crtc L fs preset_path out_crtc = (- 1, out_crtc, [InvalidCrtcConfig v])"
proof (cases preset_path)
  case (Some path)
  then show ?thesis
    using assms load_config_crtc_from_file_shape [of L fs path out_crtc]
    by (auto simp: load_config_crtc_def first_resource_def search_order_def)
next
  case None
  then show ?thesis
    using assms load_config_crtc_from_file_shape [of L fs "''./presets.ini''" out_crtc]
    by (auto simp: load_config_crtc_def first_resource_def search_order_def)
qed

lemma load_config_crtc_ok_silent:
  assumes "0 \<le> fst (load_config_crtc L fs preset_path out_crtc)"
  shows "snd (snd (load_config_crtc L fs preset_path out_crtc)) = []"
  using assms load_config_crtc_shape [of L fs preset_path out_crtc] by auto

lemma main_list_mode:
  assumes "parse_opts L args initial_opts = OptDone st []" "opt_list_mode st"
    and "opt_crtc_override st \<or> 0 \<le> fst (load_config_crtc L fs (opt_preset_path st) 0)"
  shows "main L fs args = (Exit 0, list_all_presets fs (opt_preset_path st))"
proof (cases "opt_crtc_override st")
  case True
  with assms(1,2) show ?thesis by (simp add: main_def)
next
  case False
  with assms(3) have ok: "0 \<le> fst (load_config_crtc L fs (opt_preset_path st) 0)" by simp
  obtain cst c ev where r: "load_config_crtc L fs (opt_preset_path st) 0 = (cst, c, ev)"
    by (cases "load_config_crtc L fs (opt_preset_path st) 0")
  with ok load_config_crtc_ok_silent [OF ok] have "0 \<le> cst" "ev = []" by simp_all
  with assms(1,2) False r show ?thesis by (simp add: main_def Let_def)
qed

text \<open>
  Claim C8. The names \<open>list_all_presets\<close> prints are the section names of the resources
  in search order (of the single \<open>--presets\<close> file when one is given), file by file and in
  file order, without the reserved name \<open>config\<close>, followed by the built-in name \<open>reset\<close>
  (a header \<open>[]\<close> carries no name and prints nothing). Nothing is deduplicated: a name is
  printed as often as the two files together hold it. With no resource file present the
  only name printed is \<open>reset\<close>. \<open>main\<close> prints exactly this listing and exits with 0
  when \<open>--list\<close> is given without positional arguments and the \<open>[config]\<close> scan raises no
  error.
\<close>

theorem list_enumerates_sections:
  "printed_names (list_all_presets fs preset_path)
     = concat (map (listed_names fs) (search_order preset_path)) @ [''reset'']
   \<and> count_list (printed_names (list_all_presets fs None)) n
       = count_list (listed_names fs ''./presets.ini'') n
         + count_list (listed_names fs ''/etc/gamma-presets.ini'') n
         + (if n = ''reset'' then 1 else 0)
   \<and> ((\<forall>path \<in> set (search_order preset_path). fs path = None)
        \<longrightarrow> printed_names (list_all_presets fs preset_path) = [''reset''])
   \<and> (parse_opts L args initial_opts = OptDone st [] \<and> opt_list_mode st
        \<and> (opt_crtc_override st \<or> 0 \<le> fst (load_config_crtc L fs (opt_preset_path st) 0))
        \<longrightarrow> (\<exists>ev. main L fs args = (Exit 0, ev)
              \<and> printed_names ev
                  = concat (map (listed_names fs) (search_order (opt_preset_path st))) @ [''reset'']))"
proof -
  have a: "printed_names (list_all_presets fs pp)
     = concat (map (listed_names fs) (search_order pp)) @ [''reset'']" for pp
    by (rule list_all_presets_names)
  have b: "count_list (printed_names (list_all_presets fs None)) n
       = count_list (listed_names fs ''./presets.ini'') n
         + count_list (listed_names fs ''/etc/gamma-presets.ini'') n
         + (if n = ''reset'' then 1 else 0)"
    unfolding a by (simp add: search_order_def)
  have c: "printed_names (list_all_presets fs preset_path) = [''reset'']"
    if "\<forall>path \<in> set (search_order preset_path). fs path = None"
  proof -
    have "listed_names fs path = []" if "path \<in> set (search_order preset_path)" for path
      using that \<open>\<forall>path \<in> set (search_order preset_path). fs path = None\<close>
      by (simp add: listed_names_def)
    then have "concat (map (listed_names fs) (search_order preset_path)) = []" by simp
    then show ?thesis unfolding a by simp
  qed
  have d: "\<exists>ev. main L fs args = (Exit 0, ev)
              \<and> printed_names ev
                  = concat (map (listed_names fs) (search_order (opt_preset_path st))) @ [''reset'']"
    if "parse_opts L args initial_opts = OptDone st [] \<and> opt_list_mode st
        \<and> (opt_crtc_override st \<or> 0 \<le> fst (load_config_crtc L fs (opt_preset_path st) 0))"
    using main_list_mode [of L args st fs] that a by simp
  from a b c d show ?thesis by blast
qed

text \<open>
  Two files that both define \<open>warm\<close> (the second one also has a header \<open>[]\<close>): \<open>warm\<close>
  is listed twice, then \<open>reset\<close>; with no file at all \<open>reset\<close> is listed alone.
\<close>

theorem list_enumerates_sections_witness:
  "printed_names (list_all_presets two_warm_files None) = [''warm'', ''warm'', ''reset'']
   \<and> count_list (printed_names (list_all_presets two_warm_files None)) ''warm'' = 2
   \<and> no_files ''./presets.ini'' = None \<and> no_files ''/etc/gamma-presets.ini'' = None
   \<and> printed_names (list_all_presets no_files None) = [''reset'']
   \<and> (\<exists>st. parse_opts demo_libc [''--list''] initial_opts = OptDone st [] \<and> opt_list_mode st
         \<and> 0 \<le> fst (load_config_crtc demo_libc two_warm_files (opt_preset_path st) 0))
   \<and> (\<exists>ev. main demo_libc two_warm_files [''--list''] = (Exit 0, ev)
         \<and> printed_names ev = [''warm'', ''warm'', ''reset''])"
proof -
  have n1: "listed_names two_warm_files ''./presets.ini'' = [''warm'']" by code_simp
  have n2: "listed_names two_warm_files ''/etc/gamma-presets.ini'' = [''warm'']" by code_simp
  have nf: "\<forall>path \<in> set (search_order None). no_files path = None" by (simp add: no_files_def)
  define st where "st = initial_opts\<lparr>opt_list_mode := True\<rparr>"
  have po: "parse_opts demo_libc [''--list''] initial_opts = OptDone st []"
    by (simp add: st_def)
  have lm: "opt_list_mode st" by (simp add: st_def)
  have pp: "opt_preset_path st = None" by (simp add: st_def initial_opts_def)
  have cfg: "0 \<le> fst (load_config_crtc demo_libc two_warm_files (opt_preset_path st) 0)"
    unfolding pp by code_simp
  note inst = list_enumerates_sections [of two_warm_files None "''warm''" demo_libc "[''--list'']" st]
  note inst0 = list_enumerates_sections [of no_files None "''warm''" demo_libc "[''--list'']" st]
  have 1: "printed_names (list_all_presets two_warm_files None) = [''warm'', ''warm'', ''reset'']"
    using inst [THEN conjunct1] by (simp add: search_order_def n1 n2)
  have 2: "count_list (printed_names (list_all_presets two_warm_files None)) ''warm'' = 2"
    unfolding 1 by simp
  have 3: "printed_names (list_all_presets no_files None) = [''reset'']"
    using inst0 nf by blast
  have "\<exists>ev. main demo_libc two_warm_files [''--list''] = (Exit 0, ev)
         \<and> printed_names ev
             = concat (map (listed_names two_warm_files) (search_order (opt_preset_path st))) @ [''reset'']"
    using inst po lm cfg by blast
  then have 4: "\<exists>ev. main demo_libc two_warm_files [''--list''] = (Exit 0, ev)
         \<and> printed_names ev = [''warm'', ''warm'', ''reset'']"
    unfolding pp by (simp add: search_order_def n1 n2)
  have nf': "no_files ''./presets.ini'' = None" "no_files ''/etc/gamma-presets.ini'' = None"
    by (simp_all add: no_files_def)
  from 1 2 3 4 nf' po lm cfg show ?thesis by blast
qed


lemma section_pairs_lines_Cons:
  "section_pairs_lines want (chunk # rest) wanted =
     (let line = clean_line chunk in
      if line = [] then section_pairs_lines want rest wanted
      else if hd line = CHR ''['' then
        (case section_name line of
           Some current \<Rightarrow> section_pairs_lines want rest (current = want)
         | None \<Rightarrow> section_pairs_lines want rest wanted)
      else if \<not> wanted then section_pairs_lines want rest wanted
      else
        (case split_key_value line of
           None \<Rightarrow> section_pairs_lines want rest wanted
         | Some kv \<Rightarrow> kv # section_pairs_lines want rest wanted))"
  by simp

declare section_pairs_lines.simps(2) [simp del]

lemma load_config_lines_pairs:
  "load_config_lines L lines in_config out_crtc =
     (case List.find (\<lambda>kv. fst kv = ''crtc'') (section_pairs_lines ''config'' lines in_config) of
        None \<Rightarrow> (0, out_crtc, [])
      | Some kv \<Rightarrow>
          (case parse_uint32 L (snd kv) of
             Some utmp \<Rightarrow> (1, utmp, [])
           | None \<Rightarrow> (- 1, out_crtc, [InvalidCrtcConfig (snd kv)])))"
proof (induction lines arbitrary: in_config)
  case Nil
  show ?case by simp
next
  case (Cons chunk rest)
  note unfold = load_config_lines_Cons section_pairs_lines_Cons Let_def
  show ?case
  proof (cases "clean_line chunk = []")
    case True
    then show ?thesis by (simp add: unfold Cons.IH)
  next
    case False
    show ?thesis
    proof (cases "hd (clean_line chunk) = CHR ''[''")
      case True
      with False show ?thesis
        by (cases "section_name (clean_line chunk)") (simp_all add: unfold Cons.IH)
    next
      case nohdr: False
      show ?thesis
      proof (cases in_config)
        case False
        with \<open>clean_line chunk \<noteq> []\<close> nohdr show ?thesis by (simp add: unfold Cons.IH)
      next
        case True
        show ?thesis
        proof (cases "split_key_value (clean_line chunk)")
          case None
          with True \<open>clean_line chunk \<noteq> []\<close> nohdr show ?thesis by (simp add: unfold Cons.IH)
        next
          case (Some kv)
          with True \<open>clean_line chunk \<noteq> []\<close> nohdr show ?thesis
            by (cases kv) (simp add: unfold Cons.IH cong: option.case_cong)
        qed
      qed
    qed
  qed
qed

lemma load_config_crtc_from_file_pairs:
  "load_config_crtc_from_file L fs path out_crtc =
     (case List.find (\<lambda>kv. fst kv = ''crtc'') (section_pairs fs path ''config'') of
        None \<Rightarrow> (0, out_crtc, [])
      | Some kv \<Rightarrow>
          (case parse_uint32 L (snd kv) of
             Some utmp \<Rightarrow> (1, utmp, [])
           | None \<Rightarrow> (- 1, out_crtc, [InvalidCrtcConfig (snd kv)])))"
  by (cases "fs path")
    (simp_all add: load_config_crtc_from_file_def section_pairs_def load_config_lines_pairs)

text \<open>
  Claim C10, for invocations whose option parsing completes. When the options are parsed
  to the end (no \<open>-h\<close>/\<open>--help\<close>, no option error) without a \<open>--crtc\<close> option and the first
  \<open>crtc\<close> key under \<open>[config]\<close> in the first resource file of the search order has a value
  that fails integer parsing, \<open>main\<close> prints the one message about that value and exits
  with code 2; it prints no preset name, also when \<open>--list\<close> was requested, and does not
  reach the hardware.
\<close>

theorem config_error_exits_first:
  assumes "parse_opts L args initial_opts = OptDone st pos"
    and "\<not> opt_crtc_override st"
    and "List.find (\<lambda>kv. fst kv = ''crtc'')
           (section_pairs fs (first_resource (opt_preset_path st)) ''config'') = Some (key, val)"
    and "parse_uint32 L val = None"
  shows "main L fs args = (Exit 2, [InvalidCrtcConfig val])
    \<and> printed_names (snd (main L fs args)) = []"
proof -
  have r: "load_config_crtc_from_file L fs (first_resource (opt_preset_path st)) 0
      = (- 1, 0, [InvalidCrtcConfig val])"
    using assms(3,4) by (simp add: load_config_crtc_from_file_pairs)
  then have "fst (load_config_crtc_from_file L fs (first_resource (opt_preset_path st)) 0) = - 1"
    by simp
  then obtain v where v: "load_config_crtc L fs (opt_preset_path st) 0 = (- 1, 0, [InvalidCrtcConfig v])"
    using load_config_crtc_first_error by blast
  have "load_config_crtc L fs (opt_preset_path st) 0
      = load_config_crtc_from_file L fs (first_resource (opt_preset_path st)) 0"
    using r by (cases "opt_preset_path st")
      (simp_all add: load_config_crtc_def first_resource_def search_order_def)
  with r v have "v = val" by simp
  with v assms(1,2) have "main L fs args = (Exit 2, [InvalidCrtcConfig val])"
    by (simp add: main_def)
  then show ?thesis by (simp add: printed_names_def List.map_filter_def)
qed

text \<open>The theorem for \<open>--list\<close> with a local file whose \<open>[config]\<close> says \<open>crtc = abc\<close>.\<close>

theorem config_error_exits_first_witness:
  "(\<exists>st. parse_opts demo_libc [''--list''] initial_opts = OptDone st []
        \<and> opt_list_mode st \<and> \<not> opt_crtc_override st
        \<and> List.find (\<lambda>kv. fst kv = ''crtc'')
             (section_pairs bad_config_files (first_resource (opt_preset_path st)) ''config'')
            = Some (''crtc'', ''abc''))
   \<and> parse_uint32 demo_libc ''abc'' = None
   \<and> main demo_libc bad_config_files [''--list''] = (Exit 2, [InvalidCrtcConfig ''abc''])
   \<and> printed_names (snd (main demo_libc bad_config_files [''--list''])) = []"
proof -
  define st where "st = initial_opts\<lparr>opt_list_mode := True\<rparr>"
  have po: "parse_opts demo_libc [''--list''] initial_opts = OptDone st []"
    by (simp add: st_def)
  have lm: "opt_list_mode st" and ov: "\<not> opt_crtc_override st"
    and pp: "opt_preset_path st = None"
    by (simp_all add: st_def initial_opts_def)
  have bad: "List.find (\<lambda>kv. fst kv = ''crtc'')
             (section_pairs bad_config_files (first_resource (opt_preset_path st)) ''config'')
            = Some (''crtc'', ''abc'')"
    unfolding pp by code_simp
  have np: "parse_uint32 demo_libc ''abc'' = None" by code_simp
  from config_error_exits_first [OF po ov bad np] po lm ov bad np show ?thesis by blast
qed

text \<open>
  Claim C10 as it is worded covers every invocation without \<open>--crtc\<close>. With the same
  file, \<open>--help\<close> prints the usage and exits with 0: the option loop returns before the
  \<open>[config]\<close> section is read.
\<close>

theorem help_precedes_config_error:
  "List.find (\<lambda>kv. fst kv = ''crtc'')
     (section_pairs bad_config_files (first_resource None) ''config'') = Some (''crtc'', ''abc'')
   \<and> parse_uint32 demo_libc ''abc'' = None
   \<and> main demo_libc bad_config_files [''--help''] = (Exit 0, [Usage])"
  by code_simp

section \<open>Properties of preset resolution\<close>

lemma load_preset_lines_Cons:
  "load_preset_lines L want (chunk # rest) wanted pv status =
     (let line = clean_line chunk in
      if line = [] then load_preset_lines L want rest wanted pv status
      else if hd line = CHR ''['' then
        (case section_name line of
           Some current \<Rightarrow> load_preset_lines L want rest (current = want) pv status
         | None \<Rightarrow> load_preset_lines L want rest wanted pv status)
      else if \<not> wanted then load_preset_lines L want rest wanted pv status
      else
        (case split_key_value line of
           None \<Rightarrow> load_preset_lines L want rest wanted pv status
         | Some (key, val) \<Rightarrow>
             (case preset_key L key val pv of
                Stored pv' \<Rightarrow> load_preset_lines L want rest wanted pv' 1
              | Failed ev \<Rightarrow> (- 1, pv, ev)
              | Ignored \<Rightarrow> load_preset_lines L want rest wanted pv status)))"
  by simp

declare load_preset_lines.simps(2) [simp del]

lemma load_preset_lines_pairs:
  "load_preset_lines L want lines wanted pv status
     = apply_pairs L (section_pairs_lines want lines wanted) pv status"
proof (induction lines arbitrary: wanted pv status)
  case Nil
  show ?case by simp
next
  case (Cons chunk rest)
  note unfold = load_preset_lines_Cons section_pairs_lines_Cons Let_def
  show ?case
  proof (cases "clean_line chunk = []")
    case True
    then show ?thesis by (simp add: unfold Cons.IH)
  next
    case False
    show ?thesis
    proof (cases "hd (clean_line chunk) = CHR ''[''")
      case True
      with False show ?thesis
        by (cases "section_name (clean_line chunk)") (simp_all add: unfold Cons.IH)
    next
      case nohdr: False
      show ?thesis
      proof (cases wanted)
        case False
        with \<open>clean_line chunk \<noteq> []\<close> nohdr show ?thesis by (simp add: unfold Cons.IH)
      next
        case True
        show ?thesis
        proof (cases "split_key_value (clean_line chunk)")
          case None
          with True \<open>clean_line chunk \<noteq> []\<close> nohdr show ?thesis by (simp add: unfold Cons.IH)
        next
          case (Some kv)
          with True \<open>clean_line chunk \<noteq> []\<close> nohdr show ?thesis
            by (cases kv) (simp add: unfold Cons.IH cong: key_result.case_cong)
        qed
      qed
    qed
  qed
qed

lemma load_preset_from_file_pairs:
  "load_preset_from_file L fs path want pv = apply_pairs L (section_pairs fs path want) pv 0"
  by (cases "fs path")
    (simp_all add: load_preset_from_file_def section_pairs_def load_preset_lines_pairs)

lemma preset_key_Ignored_iff:
  "(preset_key L key val pv = Ignored) = (key \<notin> set recognised_keys)"
  by (auto simp: preset_key_def recognised_keys_def split: prod.splits option.splits)


lemma apply_pairs_unrecognised:
  assumes "\<forall>kv \<in> set kvs. fst kv \<notin> set recognised_keys"
  shows "apply_pairs L kvs pv status = (status, pv, [])"
  using assms
proof (induction kvs)
  case Nil
  show ?case by simp
next
  case (Cons kv kvs)
  then have "preset_key L (fst kv) (snd kv) pv = Ignored"
    by (simp add: preset_key_Ignored_iff)
  with Cons show ?case by simp
qed

lemma apply_pairs_status:
  "fst (apply_pairs L kvs pv status) = status \<or> fst (apply_pairs L kvs pv status) = 1
   \<or> fst (apply_pairs L kvs pv status) = - 1"
proof (induction kvs arbitrary: pv status)
  case Nil
  show ?case by simp
next
  case (Cons kv kvs)
  show ?case
  proof (cases "preset_key L (fst kv) (snd kv) pv")
    case (Stored pv')
    with Cons [of pv' 1] show ?thesis by auto
  next
    case (Failed ev)
    then show ?thesis by simp
  next
    case Ignored
    with Cons [of pv status] show ?thesis by auto
  qed
qed

lemma apply_pairs_recognised_zero:
  assumes "\<exists>kv \<in> set kvs. fst kv \<in> set recognised_keys"
  shows "fst (apply_pairs L kvs pv 0) \<noteq> 0"
  using assms
proof (induction kvs)
  case Nil
  then show ?case by simp
next
  case (Cons kv kvs)
  show ?case
  proof (cases "preset_key L (fst kv) (snd kv) pv")
    case (Stored pv')
    then show ?thesis using apply_pairs_status [of L kvs pv' 1] by auto
  next
    case (Failed ev)
    then show ?thesis by simp
  next
    case Ignored
    then have "fst kv \<notin> set recognised_keys" by (simp add: preset_key_Ignored_iff)
    with Cons.prems have "\<exists>kv \<in> set kvs. fst kv \<in> set recognised_keys" by auto
    with Cons.IH Ignored show ?thesis by simp
  qed
qed




lemma supplies_preset_iff:
  "supplies_preset fs path want = (fst (load_preset_from_file L fs path want pv) \<noteq> 0)"
proof
  assume "supplies_preset fs path want"
  then have "\<exists>kv \<in> set (section_pairs fs path want). fst kv \<in> set recognised_keys"
    unfolding supplies_preset_def list_ex_iff .
  then have "fst (apply_pairs L (section_pairs fs path want) pv 0) \<noteq> 0"
    by (rule apply_pairs_recognised_zero)
  then show "fst (load_preset_from_file L fs path want pv) \<noteq> 0"
    unfolding load_preset_from_file_pairs .
next
  assume nz: "fst (load_preset_from_file L fs path want pv) \<noteq> 0"
  show "supplies_preset fs path want"
  proof (rule ccontr)
    assume "\<not> supplies_preset fs path want"
    then have "\<forall>kv \<in> set (section_pairs fs path want). fst kv \<notin> set recognised_keys"
      unfolding supplies_preset_def list_ex_iff by blast
    then have "apply_pairs L (section_pairs fs path want) pv 0 = (0, pv, [])"
      by (rule apply_pairs_unrecognised)
    then have "fst (load_preset_from_file L fs path want pv) = 0"
      unfolding load_preset_from_file_pairs by simp
    with nz show False by contradiction
  qed
qed

lemma load_preset_from_file_not_found:
  assumes "\<not> supplies_preset fs path want"
  shows "load_preset_from_file L fs path want pv = (0, pv, [])"
proof -
  from assms have "\<forall>kv \<in> set (section_pairs fs path want). fst kv \<notin> set recognised_keys"
    unfolding supplies_preset_def list_ex_iff by blast
  then have "apply_pairs L (section_pairs fs path want) pv 0 = (0, pv, [])"
    by (rule apply_pairs_unrecognised)
  then show ?thesis unfolding load_preset_from_file_pairs .
qed

lemma section_pairs_need_header:
  assumes "section_pairs_lines want lines wanted \<noteq> []"
  shows "wanted \<or> want \<in> set (List.map_filter header_name lines)"
  using assms
proof (induction lines arbitrary: wanted)
  case Nil
  then show ?case by simp
next
  case (Cons chunk rest)
  show ?case
  proof (cases "header_name chunk")
    case None
    then have "section_pairs_lines want (chunk # rest) wanted \<noteq> [] \<longrightarrow>
        wanted \<or> section_pairs_lines want rest wanted \<noteq> []"
      by (auto simp: section_pairs_lines_Cons header_name_def Let_def split: option.splits if_splits)
    with Cons.prems Cons.IH [of wanted] None show ?thesis
      by (auto simp: map_filter_Cons)
  next
    case (Some name)
    then have "section_pairs_lines want (chunk # rest) wanted
        = section_pairs_lines want rest (name = want)"
      by (auto simp: section_pairs_lines_Cons header_name_def Let_def split: if_splits)
    with Cons.prems Cons.IH [of "name = want"] Some show ?thesis
      by (auto simp: map_filter_Cons)
  qed
qed

lemma supplies_preset_has_section:
  assumes "supplies_preset fs path want"
  shows "\<exists>content. fs path = Some content \<and> want \<in> set (section_names content)"
proof -
  from assms obtain kv where kv: "kv \<in> set (section_pairs fs path want)"
    unfolding supplies_preset_def list_ex_iff by blast
  show ?thesis
  proof (cases "fs path")
    case None
    with kv show ?thesis by (simp add: section_pairs_def)
  next
    case (Some content)
    with kv have "kv \<in> set (section_pairs_lines want (file_lines content) False)"
      by (simp add: section_pairs_def)
    then have "section_pairs_lines want (file_lines content) False \<noteq> []"
      by (cases "section_pairs_lines want (file_lines content) False") simp_all
    then have "False \<or> want \<in> set (List.map_filter header_name (file_lines content))"
      by (rule section_pairs_need_header)
    then have "want \<in> set (section_names content)"
      unfolding section_names_def by blast
    with Some show ?thesis by blast
  qed
qed

lemma load_preset_explicit:
  assumes "name \<noteq> ''reset''"
  shows "load_preset L fs name (Some path) = load_preset_from_file L fs path name zero_preset"
  using assms by (simp add: load_preset_def)

lemma load_preset_default_first:
  assumes "name \<noteq> ''reset''" "supplies_preset fs ''./presets.ini'' name"
  shows "load_preset L fs name None = load_preset_from_file L fs ''./presets.ini'' name zero_preset"
proof -
  obtain st pv ev where r: "load_preset_from_file L fs ''./presets.ini'' name zero_preset = (st, pv, ev)"
    by (cases "load_preset_from_file L fs ''./presets.ini'' name zero_preset")
  then have "st \<noteq> 0"
    using assms(2) supplies_preset_iff [of fs "''./presets.ini''" name L zero_preset] by simp
  with r assms(1) show ?thesis by (simp add: load_preset_def)
qed

lemma load_preset_default_second:
  assumes "name \<noteq> ''reset''" "\<not> supplies_preset fs ''./presets.ini'' name"
  shows "load_preset L fs name None
    = load_preset_from_file L fs ''/etc/gamma-presets.ini'' name zero_preset"
proof -
  have r: "load_preset_from_file L fs ''./presets.ini'' name zero_preset = (0, zero_preset, [])"
    using assms(2) by (rule load_preset_from_file_not_found)
  obtain st pv ev where r2:
    "load_preset_from_file L fs ''/etc/gamma-presets.ini'' name zero_preset = (st, pv, ev)"
    by (cases "load_preset_from_file L fs ''/etc/gamma-presets.ini'' name zero_preset")
  with r assms(1) show ?thesis by (simp add: load_preset_def)
qed

text \<open>
  Claim C3, with the winner the code picks. For every preset name but the built-in
  \<open>reset\<close>: with an explicit \<open>--presets\<close> path only that file is read. Otherwise the
  project-local file wins when one of its sections of that name holds a recognised key
  (it then does contain a section matching the name): the result is what that file alone
  gives, starting from the zeroed preset, whatever the system-wide file holds. When the
  project-local file holds no recognised key under that name, the result is what the
  system-wide file alone gives. Key values are never merged across files.
\<close>

theorem first_supplying_resource_wins:
  assumes "name \<noteq> ''reset''"
  shows "(\<forall>fs'. fs' path = fs path \<longrightarrow>
            load_preset L fs' name (Some path) = load_preset_from_file L fs path name zero_preset)
    \<and> (supplies_preset fs ''./presets.ini'' name \<longrightarrow>
         (\<exists>content. fs ''./presets.ini'' = Some content \<and> name \<in> set (section_names content))
       \<and> (\<forall>fs'. fs' ''./presets.ini'' = fs ''./presets.ini'' \<longrightarrow>
            load_preset L fs' name None
              = load_preset_from_file L fs ''./presets.ini'' name zero_preset))
    \<and> (\<not> supplies_preset fs ''./presets.ini'' name \<longrightarrow>
         load_preset L fs name None
           = load_preset_from_file L fs ''/etc/gamma-presets.ini'' name zero_preset)"
proof (intro conjI allI impI)
  fix fs' :: files
  assume f: "fs' path = fs path"
  have "load_preset L fs' name (Some path) = load_preset_from_file L fs' path name zero_preset"
    using assms by (rule load_preset_explicit)
  also have "\<dots> = load_preset_from_file L fs path name zero_preset"
    using f by (simp add: load_preset_from_file_def)
  finally show "load_preset L fs' name (Some path) = load_preset_from_file L fs path name zero_preset" .
next
  assume "supplies_preset fs ''./presets.ini'' name"
  then show "\<exists>content. fs ''./presets.ini'' = Some content \<and> name \<in> set (section_names content)"
    by (rule supplies_preset_has_section)
next
  fix fs' :: files
  assume s: "supplies_preset fs ''./presets.ini'' name"
    and f: "fs' ''./presets.ini'' = fs ''./presets.ini''"
  from f s have "supplies_preset fs' ''./presets.ini'' name"
    by (simp add: supplies_preset_def section_pairs_def)
  with assms have "load_preset L fs' name None
      = load_preset_from_file L fs' ''./presets.ini'' name zero_preset"
    by (rule load_preset_default_first)
  also have "\<dots> = load_preset_from_file L fs ''./presets.ini'' name zero_preset"
    using f by (simp add: load_preset_from_file_def)
  finally show "load_preset L fs' name None
      = load_preset_from_file L fs ''./presets.ini'' name zero_preset" .
next
  assume "\<not> supplies_preset fs ''./presets.ini'' name"
  with assms show "load_preset L fs name None
      = load_preset_from_file L fs ''/etc/gamma-presets.ini'' name zero_preset"
    by (rule load_preset_default_second)
qed


text \<open>
  With two files that both define \<open>[warm]\<close> the local \<open>gamma = 2.0\<close> wins; when the local
  \<open>[warm]\<close> has no key the system-wide file is read; an explicit path reads that file.
\<close>

theorem first_supplying_resource_wins_witness:
  "''warm'' \<noteq> ''reset''
   \<and> supplies_preset two_warm_files ''./presets.ini'' ''warm''
   \<and> load_preset demo_libc two_warm_files ''warm'' None
       = (1, zero_preset\<lparr>gamma := Fin 2, have_gamma := True\<rparr>, [])
   \<and> \<not> supplies_preset empty_warm_files ''./presets.ini'' ''warm''
   \<and> load_preset demo_libc empty_warm_files ''warm'' None
       = load_preset_from_file demo_libc empty_warm_files ''/etc/gamma-presets.ini'' ''warm'' zero_preset
   \<and> load_preset demo_libc two_warm_files ''warm'' (Some ''/etc/gamma-presets.ini'')
       = (1, zero_preset\<lparr>gamma := Fin 1, have_gamma := True\<rparr>, [])"
proof -
  have n: "''warm'' \<noteq> ''reset''" by simp
  have s: "supplies_preset two_warm_files ''./presets.ini'' ''warm''" by code_simp
  have ns: "\<not> supplies_preset empty_warm_files ''./presets.ini'' ''warm''" by code_simp
  have l1: "load_preset_from_file demo_libc two_warm_files ''./presets.ini'' ''warm'' zero_preset
      = (1, zero_preset\<lparr>gamma := Fin 2, have_gamma := True\<rparr>, [])"
    by code_simp
  have l2: "load_preset_from_file demo_libc two_warm_files ''/etc/gamma-presets.ini'' ''warm'' zero_preset
      = (1, zero_preset\<lparr>gamma := Fin 1, have_gamma := True\<rparr>, [])"
    by code_simp
  note w = first_supplying_resource_wins [OF n, of "''/etc/gamma-presets.ini''" two_warm_files demo_libc]
  note w' = first_supplying_resource_wins [OF n, of "''/etc/gamma-presets.ini''" empty_warm_files demo_libc]
  have a: "load_preset demo_libc two_warm_files ''warm'' None
       = (1, zero_preset\<lparr>gamma := Fin 2, have_gamma := True\<rparr>, [])"
    using w s l1 by simp
  have b: "load_preset demo_libc empty_warm_files ''warm'' None
       = load_preset_from_file demo_libc empty_warm_files ''/etc/gamma-presets.ini'' ''warm'' zero_preset"
    using w' ns by blast
  have c: "load_preset demo_libc two_warm_files ''warm'' (Some ''/etc/gamma-presets.ini'')
       = (1, zero_preset\<lparr>gamma := Fin 1, have_gamma := True\<rparr>, [])"
    using w l2 by simp
  from n s a ns b c show ?thesis by blast
qed

text \<open>
  Claim C3 as it is worded lets the first resource that contains a matching section win.
  Here the local file contains \<open>[warm]\<close> with no key: its scan returns 0 (not found),
  and the preset is loaded from the system-wide file.
\<close>

theorem keyless_section_falls_through:
  "''warm'' \<in> set (listed_names empty_warm_files ''./presets.ini'')
   \<and> load_preset_from_file demo_libc empty_warm_files ''./presets.ini'' ''warm'' zero_preset
       = (0, zero_preset, [])
   \<and> load_preset demo_libc empty_warm_files ''warm'' None
       = (1, zero_preset\<lparr>gamma := Fin 2, have_gamma := True\<rparr>, [])"
  by code_simp










section \<open>Properties of the numeric command line\<close>


















lemma main_numeric_path:
  assumes "parse_opts L args initial_opts = OptDone st (a # rest)"
    and "\<not> opt_list_mode st"
    and "opt_crtc_override st \<or> 0 \<le> fst (load_config_crtc L fs (opt_preset_path st) 0)"
    and "parse_double_strict L a = Some ga"
  shows "\<exists>cid. main L fs args = numeric_path L (a # rest) cid ga"
proof (cases "opt_crtc_override st")
  case True
  with assms(1,2,4) have "main L fs args = numeric_path L (a # rest) (opt_crtc_id st) ga"
    by (simp add: main_def split: prod.splits)
  then show ?thesis by blast
next
  case False
  with assms(3) have ok: "0 \<le> fst (load_config_crtc L fs (opt_preset_path st) 0)" by simp
  obtain cst c ev where r: "load_config_crtc L fs (opt_preset_path st) 0 = (cst, c, ev)"
    by (cases "load_config_crtc L fs (opt_preset_path st) 0")
  with ok load_config_crtc_ok_silent [OF ok] have "0 \<le> cst" "ev = []" by simp_all
  with assms(1,2,4) False r have "main L fs args
      = numeric_path L (a # rest) (if cst > 0 then c else opt_crtc_id st) ga"
    by (simp add: main_def Let_def split: prod.splits)
  then show ?thesis by blast
qed


lemma numeric_path_too_many:
  assumes "6 < length pos"
  shows "numeric_path L pos cid ga = (Exit 2, [InvalidNumArgs (int (length pos)), Usage])"
  using assms by (simp add: numeric_path_def)







section \<open>Further properties\<close>

lemma lut_entry_reserved:
  assumes "lut_entry p N i old = Ret e"
  shows "reserved e = reserved old"
  using assms
  by (cases p) (auto simp: Let_def split: c_result.splits)

text \<open>
  Whatever six doubles \<open>set_gamma_lut\<close> receives (NaN and the infinities included), the
  body of its loop is defined for every index and table size: the conversions to 16 bits
  never see a value outside \<open>[0, 65535.5]\<close>, and the \<open>reserved\<close> field is left alone.
\<close>

theorem lut_entry_never_undefined:
  "\<exists>e. lut_entry p N i old = Ret e \<and> reserved e = reserved old"
proof -
  obtain e where e: "lut_entry p N i old = Ret e" using lut_entry_total by blast
  then have "reserved e = reserved old" by (rule lut_entry_reserved)
  with e show ?thesis by blast
qed

text \<open>
  The loop returns a table, of \<open>lut_size\<close> entries, exactly when \<open>lut_size\<close> is below
  \<open>2^32\<close>, the range of its 32-bit counter.
\<close>

theorem gamma_lut_returns_iff:
  "(\<exists>t. gamma_lut p N = Some (Ret t) \<and> length t = unat N) = (unat N < 2 ^ 32)"
proof
  assume "\<exists>t. gamma_lut p N = Some (Ret t) \<and> length t = unat N"
  then obtain t where "lut_loop p N 0 (replicate (unat N) zero_lut) = Some (Ret t)"
    by (auto simp: gamma_lut_def)
  then show "unat N < 2 ^ 32" by (rule lut_loop_returns_small)
next
  assume "unat N < 2 ^ 32"
  then show "\<exists>t. gamma_lut p N = Some (Ret t) \<and> length t = unat N"
    using gamma_lut_run [of N p] by blast
qed

text \<open>
  For a table of one entry and finite parameters with a positive gamma the entry is
  black: \<open>0.0 / 0.0\<close> is NaN and \<open>fmax\<close> turns it into the base 0.
\<close>

theorem single_entry_table_black:
  assumes "0 < ga"
  shows "gamma_lut (mk_params ga li gn rm gm bm) 1 = Some (Ret [zero_lut])"
  using assms by (rule gamma_lut_single)

text \<open>The theorem at \<open>gamma = 2.2\<close>, \<open>lift = 0.3\<close>.\<close>

theorem single_entry_table_black_witness:
  "(0 :: real) < 11 / 5 \<and> gamma_lut (mk_params (11 / 5) (3 / 10) 1 1 1 1) 1 = Some (Ret [zero_lut])"
proof -
  have h: "(0 :: real) < 11 / 5" by simp
  from single_entry_table_black [OF h] h show ?thesis by blast
qed

text \<open>
  On the numeric path more than six positional arguments are rejected with the arity
  message, the usage text and exit code 2, before any of them is range-checked.
\<close>

theorem seven_arguments_rejected:
  assumes "parse_opts L args initial_opts = OptDone st pos"
    and "\<not> opt_list_mode st"
    and "opt_crtc_override st \<or> 0 \<le> fst (load_config_crtc L fs (opt_preset_path st) 0)"
    and "parse_double_strict L (hd pos) = Some g0"
    and "6 < length pos"
  shows "main L fs args = (Exit 2, [InvalidNumArgs (int (length pos)), Usage])"
proof -
  from assms(5) obtain a rest where pos: "pos = a # rest" by (cases pos) simp_all
  with assms(4) have num: "parse_double_strict L a = Some g0" by simp
  obtain cid where "main L fs args = numeric_path L (a # rest) cid g0"
    using main_numeric_path [OF assms(1) [unfolded pos] assms(2,3) num] by blast
  then show ?thesis
    using numeric_path_too_many [OF assms(5), of L cid g0] unfolding pos by simp
qed

text \<open>Seven times \<open>1.0\<close>.\<close>

theorem seven_arguments_rejected_witness:
  "parse_opts demo_libc [''1.0'', ''1.0'', ''1.0'', ''1.0'', ''1.0'', ''1.0'', ''1.0''] initial_opts
     = OptDone initial_opts [''1.0'', ''1.0'', ''1.0'', ''1.0'', ''1.0'', ''1.0'', ''1.0'']
   \<and> \<not> opt_list_mode initial_opts
   \<and> 0 \<le> fst (load_config_crtc demo_libc no_files (opt_preset_path initial_opts) 0)
   \<and> parse_double_strict demo_libc ''1.0'' = Some (Fin 1)
   \<and> main demo_libc no_files [''1.0'', ''1.0'', ''1.0'', ''1.0'', ''1.0'', ''1.0'', ''1.0'']
       = (Exit 2, [InvalidNumArgs 7, Usage])"
proof -
  let ?pos = "[''1.0'', ''1.0'', ''1.0'', ''1.0'', ''1.0'', ''1.0'', ''1.0'']"
  have po: "parse_opts demo_libc ?pos initial_opts = OptDone initial_opts ?pos" by simp
  have nl: "\<not> opt_list_mode initial_opts" by (simp add: initial_opts_def)
  have cfg: "0 \<le> fst (load_config_crtc demo_libc no_files (opt_preset_path initial_opts) 0)"
    by code_simp
  have p0: "parse_double_strict demo_libc ''1.0'' = Some (Fin 1)" by code_simp
  have num: "parse_double_strict demo_libc (hd ?pos) = Some (Fin 1)" using p0 by simp
  have len: "6 < length ?pos" by simp
  from seven_arguments_rejected [OF po nl disjI2 [OF cfg] num len] po nl cfg p0
  show ?thesis by simp
qed

end
